theory Spec2Isabelle
  imports
    Complex_Main
    "HOL-Library.Multiset"
    "HOL-Library.Char_ord"
    "HOL-Library.List_Lexorder"
    "HOL-Library.Product_Lexorder"
begin

section \<open>Data model\<close>

text \<open>
  The program is one script, \<^verbatim>\<open>expense_tracker.py\<close>, that pushes a pandas data frame
  through coercion, filtering and several aggregations. The embedding keeps the frame as a
  list of rows and writes each pandas operation the script calls as a function on that list.

  \<^item> A pandas \<^verbatim>\<open>Timestamp\<close> is its integer value, nanoseconds since 1970-01-01. The
    missing timestamp \<^verbatim>\<open>NaT\<close> is \<open>None\<close>.
  \<^item> A \<^verbatim>\<open>float64\<close> amount is the \<open>real\<close> it denotes, and \<^verbatim>\<open>NaN\<close> is \<open>None\<close>. The
    sums of the aggregations and of the rolling mean are taken exactly. The outlier
    detector, whose outcome can turn on the last bit, is written with the rounding of
    every operation. The infinities of \<^verbatim>\<open>float64\<close> are outside the model.
  \<^item> Labels (\<^verbatim>\<open>expense_type\<close>, \<^verbatim>\<open>user_id\<close>, weekday and month names) are strings, and
    a missing label is \<open>None\<close>.
  \<^item> Every \<^verbatim>\<open>st.stop()\<close> of the script is an \<open>Inl\<close> result.

  The columns \<^verbatim>\<open>vendor\<close>, \<^verbatim>\<open>orders\<close> and \<^verbatim>\<open>week\<close> are carried or derived by the script
  but read by none of its computations; the rows of the model leave them out.
\<close>

type_synonym timestamp = int

record ('d, 'a) raw_row =
  raw_date :: 'd
  raw_amount :: 'a
  raw_expense_type :: "string option"
  raw_user_id :: "string option"

record ('d, 'a) raw_frame =
  raw_columns :: "string list"
  raw_rows :: "('d, 'a) raw_row list"

record row =
  date :: "timestamp option"
  amount :: "real option"
  expense_type :: "string option"
  user_id :: "string option"
  weekday :: "string option"
  month :: "string option"

record frame =
  columns :: "string list"
  rows :: "row list"

datatype error =
    MissingDateColumn
  | MissingAmountColumn
  | NoDataAfterFilters
  | NoHeatmapData

section \<open>Calendar attributes of a timestamp\<close>

definition ns_per_day :: int where
  "ns_per_day = 86400000000000"

definition days_since_epoch :: "timestamp \<Rightarrow> int" where
  "days_since_epoch t = t div ns_per_day"

definition weekday_order :: "string list" where
  "weekday_order =
     [''Monday'', ''Tuesday'', ''Wednesday'', ''Thursday'', ''Friday'', ''Saturday'', ''Sunday'']"

definition month_names :: "string list" where
  "month_names =
     [''January'', ''February'', ''March'', ''April'', ''May'', ''June'', ''July'',
      ''August'', ''September'', ''October'', ''November'', ''December'']"

text \<open>Day 0 (1970-01-01) was a Thursday, index 3 counting from Monday.\<close>

definition day_name :: "timestamp \<Rightarrow> string" where
  "day_name t = weekday_order ! nat ((days_since_epoch t + 3) mod 7)"

text \<open>
  The month of a day count in the proleptic Gregorian calendar, by the usual era
  decomposition (400-year eras of 146097 days, years starting on 1 March).
\<close>

definition month_of_days :: "int \<Rightarrow> int" where
  "month_of_days z =
     (let doe = (z + 719468) mod 146097;
          yoe = (doe - doe div 1460 + doe div 36524 - doe div 146096) div 365;
          doy = doe - (365 * yoe + yoe div 4 - yoe div 100);
          mp = (5 * doy + 2) div 153
      in if mp < 10 then mp + 3 else mp - 9)"

definition month_name :: "timestamp \<Rightarrow> string" where
  "month_name t = month_names ! nat (month_of_days (days_since_epoch t) - 1)"

definition days_from_civil :: "int \<Rightarrow> int \<Rightarrow> int \<Rightarrow> int" where
  "days_from_civil y m d =
     (let y' = (if m \<le> 2 then y - 1 else y);
          era = y' div 400;
          yoe = y' - era * 400;
          doy = (153 * (if m > 2 then m - 3 else m + 9) + 2) div 5 + d - 1;
          doe = yoe * 365 + yoe div 4 - yoe div 100 + doy
      in era * 146097 + doe - 719468)"

section \<open>Schema normalisation (lines 47 to 78)\<close>

text \<open>
  \<^verbatim>\<open>pd.to_datetime(..., errors="coerce")\<close> and \<^verbatim>\<open>pd.to_numeric(..., errors="coerce")\<close> are
  library functions: the normaliser takes them as parameters. All that \<^verbatim>\<open>errors="coerce"\<close>
  fixes is their shape: they never raise, and a value that does not parse becomes
  \<^verbatim>\<open>NaT\<close> or \<^verbatim>\<open>NaN\<close>, here \<open>None\<close>.
\<close>

definition coerce_row ::
  "('d \<Rightarrow> timestamp option) \<Rightarrow> ('a \<Rightarrow> real option) \<Rightarrow> ('d, 'a) raw_row \<Rightarrow> row" where
  "coerce_row to_datetime to_numeric r =
     \<lparr>date = to_datetime (raw_date r),
      amount = to_numeric (raw_amount r),
      expense_type = raw_expense_type r,
      user_id = raw_user_id r,
      weekday = None,
      month = None\<rparr>"

text \<open>
  \<^verbatim>\<open>df.sort_values("date")\<close>: ascending, rows with a missing date last
  (\<^verbatim>\<open>na_position="last"\<close>). The order pandas gives to rows of equal date is not fixed by
  its default sort; the model keeps their input order, and nothing below depends on it.
\<close>

definition sort_values_date :: "row list \<Rightarrow> row list" where
  "sort_values_date rs =
     sort_key (\<lambda>r. the (date r)) (filter (\<lambda>r. date r \<noteq> None) rs)
       @ filter (\<lambda>r. date r = None) rs"

definition derive_row :: "row \<Rightarrow> row" where
  "derive_row r =
     r\<lparr>weekday := map_option day_name (date r),
       month := map_option month_name (date r)\<rparr>"

definition normalize ::
  "('d \<Rightarrow> timestamp option) \<Rightarrow> ('a \<Rightarrow> real option) \<Rightarrow> ('d, 'a) raw_frame \<Rightarrow> error + frame" where
  "normalize to_datetime to_numeric df =
     (if ''date'' \<notin> set (raw_columns df) then Inl MissingDateColumn
      else if ''amount'' \<notin> set (raw_columns df) then Inl MissingAmountColumn
      else Inr \<lparr>columns = raw_columns df @ [''weekday'', ''week'', ''month''],
                rows = map derive_row
                         (sort_values_date
                            (map (coerce_row to_datetime to_numeric) (raw_rows df)))\<rparr>)"

subsection \<open>A concrete reading of CSV text\<close>

text \<open>
  To run the script on explicit inputs, the two coercions are instantiated for CSV cells:
  a cell is its text, or \<open>None\<close> when blank. The readers below accept plain ISO dates
  \<^verbatim>\<open>YYYY-MM-DD\<close> and plain decimal numerals, which they read exactly; on the dates and
  the whole numbers of the examples that is the value pandas gives. A blank cell and text
  such as \<^verbatim>\<open>abc\<close> coerce to missing. They are used only on such cells. Every general
  statement below is about arbitrary coercion functions.
\<close>

definition digit_of :: "char \<Rightarrow> nat option" where
  "digit_of c =
     (let n = (of_char c :: nat) in if 48 \<le> n \<and> n \<le> 57 then Some (n - 48) else None)"

fun digits_val :: "nat \<Rightarrow> string \<Rightarrow> nat option" where
  "digits_val acc [] = Some acc"
| "digits_val acc (c # cs) =
     (case digit_of c of None \<Rightarrow> None | Some d \<Rightarrow> digits_val (10 * acc + d) cs)"

definition parse_nat :: "string \<Rightarrow> nat option" where
  "parse_nat s = (if s = [] then None else digits_val 0 s)"

definition leap_year :: "nat \<Rightarrow> bool" where
  "leap_year y = (y mod 4 = 0 \<and> (y mod 100 \<noteq> 0 \<or> y mod 400 = 0))"

definition days_in_month :: "nat \<Rightarrow> nat \<Rightarrow> nat" where
  "days_in_month y m =
     (if m = 2 then (if leap_year y then 29 else 28)
      else if m \<in> {4, 6, 9, 11} then 30 else 31)"

definition csv_to_datetime :: "string option \<Rightarrow> timestamp option" where
  "csv_to_datetime c =
     (case c of
        None \<Rightarrow> None
      | Some s \<Rightarrow>
          if length s = 10 \<and> s ! 4 = CHR ''-'' \<and> s ! 7 = CHR ''-'' then
            (case (parse_nat (take 4 s), parse_nat (take 2 (drop 5 s)), parse_nat (drop 8 s)) of
               (Some y, Some m, Some d) \<Rightarrow>
                 if 1678 \<le> y \<and> y \<le> 2261 \<and> 1 \<le> m \<and> m \<le> 12 \<and> 1 \<le> d \<and> d \<le> days_in_month y m
                 then Some (days_from_civil (int y) (int m) (int d) * ns_per_day)
                 else None
             | _ \<Rightarrow> None)
          else None)"

definition csv_to_numeric :: "string option \<Rightarrow> real option" where
  "csv_to_numeric c =
     (case c of
        None \<Rightarrow> None
      | Some s \<Rightarrow>
          (let neg = (s \<noteq> [] \<and> hd s = CHR ''-'');
               body = (if neg then tl s else s);
               ip = takeWhile (\<lambda>ch. ch \<noteq> CHR ''.'') body;
               rest = dropWhile (\<lambda>ch. ch \<noteq> CHR ''.'') body
           in case parse_nat ip of
                None \<Rightarrow> None
              | Some n \<Rightarrow>
                  (case rest of
                     [] \<Rightarrow> Some (if neg then - real n else real n)
                   | _ # fp \<Rightarrow>
                       (case parse_nat fp of
                          None \<Rightarrow> None
                        | Some f \<Rightarrow>
                            (let v = real n + real f / 10 ^ length fp
                             in Some (if neg then - v else v))))))"

section \<open>Filter engine (lines 80 to 131)\<close>

text \<open>
  A bound of the date range is what \<^verbatim>\<open>pd.to_datetime\<close> made of the widget's value. It is
  \<^verbatim>\<open>NaT\<close>, or a timestamp. Comparing the date column with a timestamp raises
  \<^verbatim>\<open>TypeError\<close> when one of the two is timezone-aware and the other is not; such a
  bound is \<open>Mismatched\<close>, and this is the exception the \<^verbatim>\<open>try\<close> of line 117 catches.
\<close>

datatype bound = NaT | Stamp timestamp | Mismatched timestamp

datatype py_exception = TypeError | ValueError

definition comparable :: "bound \<Rightarrow> bool" where
  "comparable b = (case b of Mismatched _ \<Rightarrow> False | _ \<Rightarrow> True)"

text \<open>\<^verbatim>\<open>df["date"] >= start\<close> and \<^verbatim>\<open>df["date"] <= end\<close>: any comparison with \<^verbatim>\<open>NaT\<close> is False.\<close>

definition col_ge :: "timestamp option list \<Rightarrow> bound \<Rightarrow> py_exception + bool list" where
  "col_ge ds b =
     (case b of
        Mismatched _ \<Rightarrow> Inl TypeError
      | NaT \<Rightarrow> Inr (map (\<lambda>d. False) ds)
      | Stamp t \<Rightarrow> Inr (map (\<lambda>d. case d of None \<Rightarrow> False | Some x \<Rightarrow> t \<le> x) ds))"

definition col_le :: "timestamp option list \<Rightarrow> bound \<Rightarrow> py_exception + bool list" where
  "col_le ds b =
     (case b of
        Mismatched _ \<Rightarrow> Inl TypeError
      | NaT \<Rightarrow> Inr (map (\<lambda>d. False) ds)
      | Stamp t \<Rightarrow> Inr (map (\<lambda>d. case d of None \<Rightarrow> False | Some x \<Rightarrow> x \<le> t) ds))"

definition date_mask :: "row list \<Rightarrow> bound \<Rightarrow> bound \<Rightarrow> py_exception + bool list" where
  "date_mask rs start_date end_date =
     (case col_ge (map date rs) start_date of
        Inl e \<Rightarrow> Inl e
      | Inr ge \<Rightarrow>
          (case col_le (map date rs) end_date of
             Inl e \<Rightarrow> Inl e
           | Inr le \<Rightarrow> Inr (map2 (\<and>) ge le)))"

text \<open>Boolean indexing \<^verbatim>\<open>df[mask]\<close>.\<close>

definition boolean_index :: "'a list \<Rightarrow> bool list \<Rightarrow> 'a list" where
  "boolean_index rs keep = map fst (filter snd (zip rs keep))"

text \<open>Lines 116 to 121: the handler of the \<^verbatim>\<open>try\<close> puts the unfiltered copy back.\<close>

definition date_range_filter :: "row list \<Rightarrow> bound \<Rightarrow> bound \<Rightarrow> row list" where
  "date_range_filter rs start_date end_date =
     (case date_mask rs start_date end_date of
        Inl e \<Rightarrow> rs
      | Inr keep \<Rightarrow> boolean_index rs keep)"

fun dropna :: "'a option list \<Rightarrow> 'a list" where
  "dropna [] = []"
| "dropna (None # xs) = dropna xs"
| "dropna (Some x # xs) = x # dropna xs"

text \<open>\<^verbatim>\<open>Series.unique()\<close>: the distinct values in order of first appearance.\<close>

fun unique_from :: "'a list \<Rightarrow> 'a list \<Rightarrow> 'a list" where
  "unique_from seen [] = []"
| "unique_from seen (x # xs) =
     (if x \<in> set seen then unique_from seen xs else x # unique_from (x # seen) xs)"

definition unique :: "'a list \<Rightarrow> 'a list" where
  "unique xs = unique_from [] xs"

definition expense_types :: "frame \<Rightarrow> string list" where
  "expense_types df =
     (if ''expense_type'' \<in> set (columns df) then unique (dropna (map expense_type (rows df)))
      else [])"

definition isin :: "string option \<Rightarrow> string list \<Rightarrow> bool" where
  "isin v sel = (case v of None \<Rightarrow> False | Some c \<Rightarrow> c \<in> set sel)"

text \<open>Lines 123 and 124. An empty Python list is falsy.\<close>

definition category_filter :: "string list \<Rightarrow> string list \<Rightarrow> row list \<Rightarrow> row list" where
  "category_filter ets selected_types rs =
     (if ets \<noteq> [] \<and> selected_types \<noteq> []
      then filter (\<lambda>r. isin (expense_type r) selected_types) rs
      else rs)"

text \<open>
  Lines 126 and 127. \<open>user_search\<close> stays \<^verbatim>\<open>None\<close> when the frame has no
  \<^verbatim>\<open>user_id\<close> column; \<^verbatim>\<open>None\<close> and the empty string are falsy.
\<close>

definition user_filter :: "string option \<Rightarrow> row list \<Rightarrow> row list" where
  "user_filter user_search rs =
     (case user_search of
        None \<Rightarrow> rs
      | Some u \<Rightarrow>
          if u \<noteq> [] \<and> u \<noteq> ''All'' then filter (\<lambda>r. user_id r = Some u) rs else rs)"

definition apply_filters ::
  "frame \<Rightarrow> bound \<Rightarrow> bound \<Rightarrow> string list \<Rightarrow> string option \<Rightarrow> error + row list" where
  "apply_filters df start_date end_date selected_types user_search =
     (let df_filtered =
            user_filter user_search
              (category_filter (expense_types df) selected_types
                 (date_range_filter (rows df) start_date end_date))
      in if df_filtered = [] then Inl NoDataAfterFilters else Inr df_filtered)"

text \<open>
  Lines 81 to 83: the default of the date widget is the observed span,
  \<^verbatim>\<open>[min_date.date(), max_date.date()]\<close>, each end cut to its calendar day. With no
  parseable date at all \<^verbatim>\<open>min_date\<close> is \<^verbatim>\<open>NaT\<close>, whose \<^verbatim>\<open>date()\<close> raises.
\<close>

definition floor_day :: "timestamp \<Rightarrow> timestamp" where
  "floor_day t = days_since_epoch t * ns_per_day"

definition default_range :: "frame \<Rightarrow> py_exception + bound \<times> bound" where
  "default_range df =
     (case dropna (map date (rows df)) of
        [] \<Rightarrow> Inl ValueError
      | d # ds \<Rightarrow> Inr (Stamp (floor_day (fold min ds d)), Stamp (floor_day (fold max ds d))))"

section \<open>Aggregation (lines 140, 168 and 236)\<close>

text \<open>
  \<^verbatim>\<open>groupby(key)["amount"].sum()\<close> works in two passes, as pandas does. The keys are
  factorised: the distinct non-missing keys, sorted, are the groups, and the code of a row
  is the position of its key among them. Then one pass over the rows adds each amount into
  the accumulator of its group. A row whose key is missing has no group
  (\<^verbatim>\<open>dropna=True\<close>); a missing amount is skipped (\<^verbatim>\<open>skipna\<close>), and since
  \<^verbatim>\<open>min_count=0\<close> a group of missing amounts only sums to 0.
\<close>

definition group_keys :: "('k::linorder) option list \<Rightarrow> 'k list" where
  "group_keys ks = sort (remdups (dropna ks))"

fun index_of :: "'a \<Rightarrow> 'a list \<Rightarrow> nat" where
  "index_of k [] = 0"
| "index_of k (x # xs) = (if x = k then 0 else Suc (index_of k xs))"

fun group_add :: "'k list \<Rightarrow> real list \<Rightarrow> 'k option \<times> real option \<Rightarrow> real list" where
  "group_add uniques sumx (None, v) = sumx"
| "group_add uniques sumx (Some k, None) = sumx"
| "group_add uniques sumx (Some k, Some v) =
     sumx[index_of k uniques := sumx ! index_of k uniques + v]"

definition groupby_sum :: "(('k::linorder) option \<times> real option) list \<Rightarrow> ('k \<times> real) list" where
  "groupby_sum kvs =
     (let uniques = group_keys (map fst kvs)
      in zip uniques (foldl (group_add uniques) (replicate (length uniques) 0) kvs))"

text \<open>Line 168: \<^verbatim>\<open>groupby("date")["amount"].sum().reset_index().sort_values("date")\<close>.\<close>

definition aggregate_by_date :: "row list \<Rightarrow> (timestamp \<times> real) list" where
  "aggregate_by_date rs = sort_key fst (groupby_sum (map (\<lambda>r. (date r, amount r)) rs))"

text \<open>Lines 235 to 240: the summary exists only when the frame has the column.\<close>

definition category_summary :: "string list \<Rightarrow> row list \<Rightarrow> (string \<times> real) list option" where
  "category_summary cols rs =
     (if ''expense_type'' \<in> set cols
      then Some (groupby_sum (map (\<lambda>r. (expense_type r, amount r)) rs))
      else None)"

section \<open>Trend: the rolling mean (line 169)\<close>

text \<open>
  \<^verbatim>\<open>rolling(7, min_periods=1).mean()\<close> is computed the way pandas computes a rolling mean
  over a fixed window: the window of index \<open>i\<close> starts at \<open>max(0, i + 1 - window)\<close> and
  ends after \<open>i\<close>; a running count and a running sum are kept, and on moving to the next
  index the values that left the window are removed and the new one is added. The output is
  the sum over the count when the count reaches \<^verbatim>\<open>min_periods\<close>, and \<^verbatim>\<open>NaN\<close> otherwise.
  The daily totals it runs over are sums, never \<^verbatim>\<open>NaN\<close>.
\<close>

type_synonym mean_state = "nat \<times> real"

definition add_mean :: "real \<Rightarrow> mean_state \<Rightarrow> mean_state" where
  "add_mean v st = (Suc (fst st), snd st + v)"

definition remove_mean :: "real \<Rightarrow> mean_state \<Rightarrow> mean_state" where
  "remove_mean v st = (fst st - 1, snd st - v)"

definition calc_mean :: "nat \<Rightarrow> mean_state \<Rightarrow> real option" where
  "calc_mean minp st =
     (if minp \<le> fst st \<and> 0 < fst st then Some (snd st / real (fst st)) else None)"

definition window_start :: "nat \<Rightarrow> nat \<Rightarrow> nat" where
  "window_start w i = (if w \<le> i + 1 then i + 1 - w else 0)"

definition roll_step ::
  "nat \<Rightarrow> nat \<Rightarrow> real list \<Rightarrow> nat \<Rightarrow> mean_state \<times> real option list
     \<Rightarrow> mean_state \<times> real option list" where
  "roll_step w minp xs i acc =
     (let st =
            (if i = 0 \<or> i \<le> window_start w i
             then fold (\<lambda>j. add_mean (xs ! j)) [window_start w i ..< i + 1] (0, 0)
             else fold (\<lambda>j. add_mean (xs ! j)) [i ..< i + 1]
                    (fold (\<lambda>j. remove_mean (xs ! j))
                       [window_start w (i - 1) ..< window_start w i] (fst acc)))
      in (st, snd acc @ [calc_mean minp st]))"

definition roll_mean :: "nat \<Rightarrow> nat \<Rightarrow> real list \<Rightarrow> real option list" where
  "roll_mean w minp xs = snd (fold (roll_step w minp xs) [0 ..< length xs] ((0, 0), []))"

definition rolling_7d_avg :: "(timestamp \<times> real) list \<Rightarrow> real option list" where
  "rolling_7d_avg daily = roll_mean 7 1 (map snd daily)"

section \<open>Binary64 arithmetic\<close>

text \<open>
  The outlier rule compares a quotient of \<^verbatim>\<open>float64\<close> values with 2, and its guard compares
  a \<^verbatim>\<open>float64\<close> standard deviation with 0: both outcomes can turn on the last bit. So the
  arithmetic of the detector is written with its rounding. A finite \<^verbatim>\<open>float64\<close> is the
  real number it denotes, every operation is the exact operation followed by the rounding
  function, and the detector takes the rounding function as a parameter: \<open>round64\<close> is
  IEEE 754 binary64 (round to nearest, ties to even), and the identity gives the exact
  arithmetic of the reals. Overflow to infinity is outside the model.
\<close>

definition round_half_even :: "real \<Rightarrow> int" where
  "round_half_even y =
     (let f = \<lfloor>y\<rfloor>; d = y - of_int f
      in if d < 1 / 2 then f
         else if 1 / 2 < d then f + 1
         else if even f then f else f + 1)"

text \<open>The binary exponent \<open>\<lfloor>log\<^sub>2 x\<rfloor>\<close> of a positive number, by halving or by doubling.\<close>

function expo_hi :: "real \<Rightarrow> int" where
  "expo_hi x = (if 2 \<le> x then expo_hi (x / 2) + 1 else 0)"
  by pat_completeness auto
termination
  by (relation "measure (\<lambda>x. nat \<lfloor>x\<rfloor>)") (auto simp: floor_less_iff, linarith)

function expo_lo :: "real \<Rightarrow> int" where
  "expo_lo x = (if 0 < x \<and> x < 1 then expo_lo (2 * x) - 1 else 0)"
  by pat_completeness auto
termination
proof (relation "measure (\<lambda>x. nat \<lfloor>1 / x\<rfloor>)")
  show "wf (measure (\<lambda>x :: real. nat \<lfloor>1 / x\<rfloor>))"
    by simp
next
  fix x :: real
  assume x: "0 < x \<and> x < 1"
  then have y: "1 < 1 / x" by simp
  have "of_int (\<lfloor>1 / (2 * x)\<rfloor> + 1) \<le> 1 / x"
  proof (cases "2 \<le> 1 / x")
    case True
    have "of_int \<lfloor>1 / (2 * x)\<rfloor> \<le> 1 / (2 * x)" by (rule of_int_floor_le)
    also have "1 / (2 * x) = (1 / x) / 2" by simp
    finally show ?thesis using True by simp
  next
    case False
    then have "1 / (2 * x) < 1" using x by (simp add: field_simps)
    moreover have "0 \<le> 1 / (2 * x)" using x by simp
    ultimately have "\<lfloor>1 / (2 * x)\<rfloor> = 0" by (simp add: floor_eq_iff)
    then show ?thesis using y by simp
  qed
  then have "\<lfloor>1 / (2 * x)\<rfloor> + 1 \<le> \<lfloor>1 / x\<rfloor>"
    by (simp only: le_floor_iff)
  moreover have "0 \<le> \<lfloor>1 / (2 * x)\<rfloor>" using x by simp
  ultimately have "nat \<lfloor>1 / (2 * x)\<rfloor> < nat \<lfloor>1 / x\<rfloor>"
    by linarith
  then show "(2 * x, x) \<in> measure (\<lambda>x. nat \<lfloor>1 / x\<rfloor>)"
    by simp
qed

declare expo_hi.simps [simp del]

declare expo_lo.simps [simp del]

definition exponent :: "real \<Rightarrow> int" where
  "exponent x = (if 1 \<le> x then expo_hi x else expo_lo x)"

definition pow2 :: "int \<Rightarrow> real" where
  "pow2 e = (if 0 \<le> e then 2 ^ nat e else 1 / 2 ^ nat (- e))"

text \<open>
  A binary64 has 53 significant bits, and its exponent does not go below -1022 (the
  subnormal range keeps the spacing of the smallest normal numbers): the spacing \<open>q\<close> of the
  representable numbers around \<open>x\<close> is 2 to the power of the exponent less 52, and \<open>x\<close> rounds
  to the nearest multiple of \<open>q\<close>.
\<close>

definition round64 :: "real \<Rightarrow> real" where
  "round64 x =
     (if x = 0 then 0
      else (let q = pow2 (max (exponent \<bar>x\<bar>) (- 1022) - 52)
            in of_int (round_half_even (x / q)) * q))"

text \<open>
  \<^verbatim>\<open>ndarray.sum()\<close> over \<^verbatim>\<open>float64\<close> is numpy's pairwise summation. Fewer than 8 values
  are added left to right. Up to 128 values are added in 8 lanes, lane \<open>j\<close> taking the values
  at the positions \<open>j\<close>, \<open>j + 8\<close>, \<open>j + 16\<close> and so on over the full blocks of 8; the lanes are
  added in pairs and the values left after the last full block are added to that, left to
  right. More than 128 values are split in two near the middle, at a multiple of 8, and the
  sums of the halves are added.
\<close>

definition add_seq :: "(real \<Rightarrow> real) \<Rightarrow> real \<Rightarrow> real list \<Rightarrow> real" where
  "add_seq rnd res xs = fold (\<lambda>x a. rnd (a + x)) xs res"

function lanes8 :: "(real \<Rightarrow> real) \<Rightarrow> real list \<Rightarrow> real list \<Rightarrow> real list \<times> real list" where
  "lanes8 rnd r xs =
     (if 8 \<le> length xs
      then lanes8 rnd (map2 (\<lambda>a x. rnd (a + x)) r (take 8 xs)) (drop 8 xs)
      else (r, xs))"
  by pat_completeness auto
termination
  by (relation "measure (\<lambda>(rnd, r, xs). length xs)") auto

definition combine8 :: "(real \<Rightarrow> real) \<Rightarrow> real list \<Rightarrow> real" where
  "combine8 rnd r =
     rnd (rnd (rnd (r ! 0 + r ! 1) + rnd (r ! 2 + r ! 3))
            + rnd (rnd (r ! 4 + r ! 5) + rnd (r ! 6 + r ! 7)))"

function pairwise_sum :: "(real \<Rightarrow> real) \<Rightarrow> real list \<Rightarrow> real" where
  "pairwise_sum rnd xs =
     (if length xs < 8 then add_seq rnd 0 xs
      else if length xs \<le> 128 then
        (case lanes8 rnd (take 8 xs) (drop 8 xs) of
           (r, rest) \<Rightarrow> add_seq rnd (combine8 rnd r) rest)
      else
        rnd (pairwise_sum rnd (take (length xs div 2 - length xs div 2 mod 8) xs)
               + pairwise_sum rnd (drop (length xs div 2 - length xs div 2 mod 8) xs)))"
  by pat_completeness auto
termination
  by (relation "measure (\<lambda>(rnd, xs). length xs)") auto

declare lanes8.simps [simp del]

declare pairwise_sum.simps [simp del]

section \<open>Outlier detection (lines 217 to 219)\<close>

text \<open>
  \<^verbatim>\<open>Series.mean()\<close> is the sum over the count, and \<^verbatim>\<open>NaN\<close> on an empty series.
  \<^verbatim>\<open>Series.std(ddof=0)\<close> is the square root of the variance pandas computes in two
  passes: the mean, then the mean of the squared distances to it; \<^verbatim>\<open>NaN\<close> on an empty
  series, and the square root of a negative number is \<^verbatim>\<open>NaN\<close>. These are pandas' own
  routines over numpy's sum; the optional accelerator library that pandas uses when it is
  installed is not modelled.
\<close>

definition series_mean :: "(real \<Rightarrow> real) \<Rightarrow> real list \<Rightarrow> real option" where
  "series_mean rnd xs =
     (if xs = [] then None else Some (rnd (pairwise_sum rnd xs / real (length xs))))"

definition series_var0 :: "(real \<Rightarrow> real) \<Rightarrow> real list \<Rightarrow> real option" where
  "series_var0 rnd xs =
     (case series_mean rnd xs of
        None \<Rightarrow> None
      | Some avg \<Rightarrow>
          Some (rnd (pairwise_sum rnd (map (\<lambda>x. rnd (rnd (avg - x) * rnd (avg - x))) xs)
                       / real (length xs))))"

definition series_std0 :: "(real \<Rightarrow> real) \<Rightarrow> real list \<Rightarrow> real option" where
  "series_std0 rnd xs =
     (case series_var0 rnd xs of
        None \<Rightarrow> None
      | Some v \<Rightarrow> if v < 0 then None else Some (rnd (sqrt v)))"

text \<open>
  Line 218. The divisor is the standard deviation when that is not equal to 0 (a
  \<^verbatim>\<open>NaN\<close> is not equal to 0), and \<^verbatim>\<open>np.nan\<close> when it is 0. Arithmetic with a
  \<^verbatim>\<open>NaN\<close> operand gives \<^verbatim>\<open>NaN\<close>.
\<close>

definition z_scores :: "(real \<Rightarrow> real) \<Rightarrow> real list \<Rightarrow> real option list" where
  "z_scores rnd xs =
     (let divisor = (if series_std0 rnd xs \<noteq> Some 0 then series_std0 rnd xs else None)
      in map (\<lambda>x. case (series_mean rnd xs, divisor) of
                     (Some avg, Some sd) \<Rightarrow> Some (rnd (rnd (x - avg) / sd))
                   | _ \<Rightarrow> None) xs)"

text \<open>\<^verbatim>\<open>daily2["z"] >= 2\<close>: a comparison with \<^verbatim>\<open>NaN\<close> is False.\<close>

definition z_ge :: "real option \<Rightarrow> real \<Rightarrow> bool" where
  "z_ge z c = (case z of None \<Rightarrow> False | Some v \<Rightarrow> c \<le> v)"

definition outlier_flags :: "(real \<Rightarrow> real) \<Rightarrow> real list \<Rightarrow> bool list" where
  "outlier_flags rnd xs = map (\<lambda>z. z_ge z 2) (z_scores rnd xs)"

definition daily2 :: "(timestamp \<times> real) list \<Rightarrow> (timestamp \<times> real \<times> real option) list" where
  "daily2 daily = map2 (\<lambda>da z. (fst da, snd da, z)) daily (z_scores round64 (map snd daily))"

definition outliers :: "(timestamp \<times> real) list \<Rightarrow> (timestamp \<times> real \<times> real option) list" where
  "outliers daily = filter (\<lambda>p. z_ge (snd (snd p)) 2) (daily2 daily)"

section \<open>Cross-tab of weekday by month (lines 193 to 199)\<close>

text \<open>
  \<^verbatim>\<open>pivot_table(index="weekday", columns="month", values="amount", aggfunc="sum")\<close> sums
  the amounts grouped by the pair of keys, a row with either key missing having no group,
  and lays the sums out with the sorted weekdays of the groups as rows and their sorted
  months as columns. A pair with no group is an absent cell (\<^verbatim>\<open>NaN\<close>), here \<open>None\<close>.
  Every row and every column of that table holds a group, so the removal of all-absent
  columns that \<^verbatim>\<open>pivot_table\<close> ends with finds none.
\<close>

record crosstab =
  ct_index :: "string list"
  ct_columns :: "string list"
  ct_cells :: "real option list list"

definition pair_key :: "'a option \<Rightarrow> 'b option \<Rightarrow> ('a \<times> 'b) option" where
  "pair_key a b =
     (case a of None \<Rightarrow> None | Some x \<Rightarrow> (case b of None \<Rightarrow> None | Some y \<Rightarrow> Some (x, y)))"

definition pivot_table :: "row list \<Rightarrow> crosstab" where
  "pivot_table rs =
     (let agged = groupby_sum (map (\<lambda>r. (pair_key (weekday r) (month r), amount r)) rs);
          idx = sort (remdups (map (fst \<circ> fst) agged));
          cols = sort (remdups (map (snd \<circ> fst) agged))
      in \<lparr>ct_index = idx,
          ct_columns = cols,
          ct_cells = map (\<lambda>w. map (\<lambda>m. map_of agged (w, m)) cols) idx\<rparr>)"

text \<open>\<^verbatim>\<open>reindex(index=...)\<close>: a label the table lacks gets a row of absent cells.\<close>

definition reindex :: "string list \<Rightarrow> crosstab \<Rightarrow> crosstab" where
  "reindex labels t =
     \<lparr>ct_index = labels,
      ct_columns = ct_columns t,
      ct_cells =
        map (\<lambda>w. if w \<in> set (ct_index t) then ct_cells t ! index_of w (ct_index t)
                 else map (\<lambda>m. None) (ct_columns t)) labels\<rparr>"

definition heatmap :: "row list \<Rightarrow> crosstab" where
  "heatmap rs = reindex weekday_order (pivot_table rs)"

text \<open>\<^verbatim>\<open>heatmap.isnull().all().all()\<close>, and \<^verbatim>\<open>heatmap.fillna(0)\<close>.\<close>

definition all_null :: "crosstab \<Rightarrow> bool" where
  "all_null t = list_all (list_all (\<lambda>c. c = None)) (ct_cells t)"

definition fillna0 :: "crosstab \<Rightarrow> real list list" where
  "fillna0 t = map (map (\<lambda>c. case c of None \<Rightarrow> 0 | Some v \<Rightarrow> v)) (ct_cells t)"

text \<open>
  Lines 194 to 199: with every cell absent the script shows the notice that no heatmap can
  be built, and draws nothing; otherwise it draws the zero-filled matrix.
\<close>

definition heatmap_view :: "row list \<Rightarrow> error + real list list" where
  "heatmap_view rs =
     (if all_null (heatmap rs) then Inl NoHeatmapData else Inr (fillna0 (heatmap rs)))"

section \<open>The example of three records\<close>

definition ymd :: "int \<Rightarrow> int \<Rightarrow> int \<Rightarrow> timestamp" where
  "ymd y m d = days_from_civil y m d * ns_per_day"

definition example_csv :: "(string option, string option) raw_frame" where
  "example_csv =
     \<lparr>raw_columns = [''date'', ''amount'', ''expense_type''],
      raw_rows =
        [\<lparr>raw_date = Some ''2024-01-01'', raw_amount = Some ''100'',
          raw_expense_type = Some ''food'', raw_user_id = None\<rparr>,
         \<lparr>raw_date = Some ''2024-01-01'', raw_amount = Some ''50'',
          raw_expense_type = Some ''food'', raw_user_id = None\<rparr>,
         \<lparr>raw_date = Some ''2024-01-02'', raw_amount = Some ''10'',
          raw_expense_type = Some ''travel'', raw_user_id = None\<rparr>]\<rparr>"

definition example_df :: frame where
  "example_df =
     \<lparr>columns = [''date'', ''amount'', ''expense_type'', ''weekday'', ''week'', ''month''],
      rows =
        [\<lparr>date = Some (ymd 2024 1 1), amount = Some 100, expense_type = Some ''food'',
          user_id = None, weekday = Some ''Monday'', month = Some ''January''\<rparr>,
         \<lparr>date = Some (ymd 2024 1 1), amount = Some 50, expense_type = Some ''food'',
          user_id = None, weekday = Some ''Monday'', month = Some ''January''\<rparr>,
         \<lparr>date = Some (ymd 2024 1 2), amount = Some 10, expense_type = Some ''travel'',
          user_id = None, weekday = Some ''Tuesday'', month = Some ''January''\<rparr>]\<rparr>"

text \<open>A file with one amount and one date that do not parse.\<close>

definition unparsed_csv :: "(string option, string option) raw_frame" where
  "unparsed_csv =
     \<lparr>raw_columns = [''date'', ''amount''],
      raw_rows =
        [\<lparr>raw_date = Some ''not a date'', raw_amount = Some ''20'',
          raw_expense_type = None, raw_user_id = None\<rparr>,
         \<lparr>raw_date = Some ''2024-01-01'', raw_amount = Some ''abc'',
          raw_expense_type = None, raw_user_id = None\<rparr>]\<rparr>"

definition unparsed_df :: frame where
  "unparsed_df =
     \<lparr>columns = [''date'', ''amount'', ''weekday'', ''week'', ''month''],
      rows =
        [\<lparr>date = Some (ymd 2024 1 1), amount = None, expense_type = None,
          user_id = None, weekday = Some ''Monday'', month = Some ''January''\<rparr>,
         \<lparr>date = None, amount = Some 20, expense_type = None,
          user_id = None, weekday = None, month = None\<rparr>]\<rparr>"

text \<open>
  The script from the loaded frame to the two aggregates, with the widgets left at their
  defaults: the observed date span, every expense type selected, and no user selector
  since the frame has no \<^verbatim>\<open>user_id\<close> column.
\<close>

datatype halt = Stopped error | Raised py_exception

definition run_defaults ::
  "('d \<Rightarrow> timestamp option) \<Rightarrow> ('a \<Rightarrow> real option) \<Rightarrow> ('d, 'a) raw_frame
     \<Rightarrow> halt + (timestamp \<times> real) list \<times> (string \<times> real) list option" where
  "run_defaults to_datetime to_numeric raw =
     (case normalize to_datetime to_numeric raw of
        Inl e \<Rightarrow> Inl (Stopped e)
      | Inr df \<Rightarrow>
          (case default_range df of
             Inl x \<Rightarrow> Inl (Raised x)
           | Inr (start_date, end_date) \<Rightarrow>
               (case apply_filters df start_date end_date (expense_types df)
                       (if ''user_id'' \<in> set (columns df) then Some ''All'' else None) of
                  Inl e \<Rightarrow> Inl (Stopped e)
                | Inr df_filtered \<Rightarrow>
                    Inr (aggregate_by_date df_filtered,
                         category_summary (columns df) df_filtered))))"

section \<open>Auxiliary notions used in the statements\<close>

text \<open>Whether a date lies in the closed range of two bounds; nothing lies in a range with a \<^verbatim>\<open>NaT\<close> end.\<close>

definition in_range :: "bound \<Rightarrow> bound \<Rightarrow> timestamp option \<Rightarrow> bool" where
  "in_range s e d = (case (s, e, d) of (Stamp a, Stamp b, Some x) \<Rightarrow> a \<le> x \<and> x \<le> b | _ \<Rightarrow> False)"

text \<open>The sum of the amounts, missing ones skipped, over the rows whose key is \<open>k\<close>.\<close>

definition group_total :: "'k \<Rightarrow> ('k option \<times> real option) list \<Rightarrow> real" where
  "group_total k kvs = sum_list (dropna (map snd (filter (\<lambda>kv. fst kv = Some k) kvs)))"

text \<open>
  The population z-score in the spec's words: the mean, the population standard deviation
  (the variance divides by the number of points), and the distance to the mean over that
  deviation, all in the reals.
\<close>

definition population_mean :: "real list \<Rightarrow> real" where
  "population_mean xs = sum_list xs / real (length xs)"

definition population_stddev :: "real list \<Rightarrow> real" where
  "population_stddev xs =
     sqrt (sum_list (map (\<lambda>x. (x - population_mean xs)\<^sup>2) xs) / real (length xs))"

definition population_z :: "real list \<Rightarrow> real \<Rightarrow> real" where
  "population_z xs x = (x - population_mean xs) / population_stddev xs"

text \<open>The count and the sum of the window that ends at index \<open>i\<close>.\<close>

definition window_state :: "nat \<Rightarrow> real list \<Rightarrow> nat \<Rightarrow> mean_state" where
  "window_state w xs i =
     (i + 1 - window_start w i, sum_list (map ((!) xs) [window_start w i ..< i + 1]))"

text \<open>Eight days of amounts 1 to 8, and a series of two equal amounts.\<close>

definition eight_days :: "(timestamp \<times> real) list" where
  "eight_days =
     [(ymd 2024 1 1, 1), (ymd 2024 1 2, 2), (ymd 2024 1 3, 3), (ymd 2024 1 4, 4),
      (ymd 2024 1 5, 5), (ymd 2024 1 6, 6), (ymd 2024 1 7, 7), (ymd 2024 1 8, 8)]"

section \<open>Normalisation keeps every row\<close>


lemma example_normalized: "normalize csv_to_datetime csv_to_numeric example_csv = Inr example_df"
  by code_simp

lemma mset_sort_values_date: "mset (sort_values_date rs) = mset rs"
  unfolding sort_values_date_def by (induction rs) auto

lemma date_derive_row [simp]: "date (derive_row r) = date r"
  by (simp add: derive_row_def)

lemma amount_derive_row [simp]: "amount (derive_row r) = amount r"
  by (simp add: derive_row_def)

text \<open>
  Claim C1, as amended. The claim says that a row whose date or amount fails coercion is
  dropped by normalisation. The script never drops a row there: when the frame has the two
  required columns, normalisation succeeds, keeps as many rows as it was given, and the
  (date, amount) pairs it holds are, up to the order of the sort, exactly the coerced pairs
  of the raw rows, so a failed coercion stays in its row as a missing value.
\<close>

theorem normalize_retains_every_row:
  assumes "''date'' \<in> set (raw_columns df)" and "''amount'' \<in> set (raw_columns df)"
  shows "\<exists>f. normalize to_datetime to_numeric df = Inr f
           \<and> length (rows f) = length (raw_rows df)
           \<and> mset (map (\<lambda>r. (date r, amount r)) (rows f))
               = mset (map (\<lambda>r. (to_datetime (raw_date r), to_numeric (raw_amount r))) (raw_rows df))"
proof -
  let ?cs = "map (coerce_row to_datetime to_numeric) (raw_rows df)"
  let ?f = "\<lparr>columns = raw_columns df @ [''weekday'', ''week'', ''month''],
             rows = map derive_row (sort_values_date ?cs)\<rparr>"
  have n: "normalize to_datetime to_numeric df = Inr ?f"
    using assms by (simp add: normalize_def)
  have "size (mset (sort_values_date ?cs)) = size (mset ?cs)"
    by (simp only: mset_sort_values_date)
  then have len: "length (rows ?f) = length (raw_rows df)"
    by simp
  have "mset (map (\<lambda>r. (date r, amount r)) (rows ?f))
          = image_mset (\<lambda>r. (date r, amount r)) (mset (sort_values_date ?cs))"
    by (simp add: comp_def)
  also have "\<dots> = image_mset (\<lambda>r. (date r, amount r)) (mset ?cs)"
    by (simp only: mset_sort_values_date)
  also have "\<dots> = mset (map (\<lambda>r. (to_datetime (raw_date r), to_numeric (raw_amount r))) (raw_rows df))"
    by (simp add: multiset.map_comp comp_def coerce_row_def)
  finally show ?thesis using n len by blast
qed

theorem normalize_retains_every_row_witness:
  "''date'' \<in> set (raw_columns unparsed_csv) \<and> ''amount'' \<in> set (raw_columns unparsed_csv)
   \<and> (\<exists>f. normalize csv_to_datetime csv_to_numeric unparsed_csv = Inr f
           \<and> length (rows f) = length (raw_rows unparsed_csv)
           \<and> mset (map (\<lambda>r. (date r, amount r)) (rows f))
               = mset (map (\<lambda>r. (csv_to_datetime (raw_date r), csv_to_numeric (raw_amount r))) (raw_rows unparsed_csv)))"
proof -
  have d: "''date'' \<in> set (raw_columns unparsed_csv)" by (simp add: unparsed_csv_def)
  have a: "''amount'' \<in> set (raw_columns unparsed_csv)" by (simp add: unparsed_csv_def)
  show ?thesis using d a normalize_retains_every_row [OF d a, of csv_to_datetime csv_to_numeric] by blast
qed

text \<open>
  Claim C1 fails as stated: of the two rows of \<open>unparsed_csv\<close> one has an amount that
  does not parse and the other a date that does not parse, and both are in the normalised
  frame, the first with a missing amount and the second with a missing date.
\<close>

theorem normalize_keeps_null_rows:
  "normalize csv_to_datetime csv_to_numeric unparsed_csv =
     Inr \<lparr>columns = [''date'', ''amount'', ''weekday'', ''week'', ''month''],
          rows = [\<lparr>date = Some (ymd 2024 1 1), amount = None, expense_type = None,
                   user_id = None, weekday = Some ''Monday'', month = Some ''January''\<rparr>,
                  \<lparr>date = None, amount = Some 20, expense_type = None,
                   user_id = None, weekday = None, month = None\<rparr>]\<rparr>"
  by code_simp

lemma unparsed_normalized:
  "normalize csv_to_datetime csv_to_numeric unparsed_csv = Inr unparsed_df"
  by code_simp

section \<open>The date range\<close>

lemma boolean_index_map: "boolean_index rs (map p rs) = filter p rs"
  unfolding boolean_index_def by (induction rs) auto

lemma map2_conj: "map2 (\<and>) (map f xs) (map g xs) = map (\<lambda>x. f x \<and> g x) xs"
  by (induction xs) auto

lemma date_mask_comparable:
  assumes "comparable s" and "comparable e"
  shows "date_mask rs s e = Inr (map (\<lambda>r. in_range s e (date r)) rs)"
proof (cases s)
  case NaT
  then show ?thesis using assms(2)
    by (cases e) (simp_all add: date_mask_def col_ge_def col_le_def comparable_def
                     in_range_def map2_conj)
next
  case (Stamp a)
  then show ?thesis using assms(2)
    by (cases e) (auto simp: date_mask_def col_ge_def col_le_def comparable_def
                     in_range_def map2_conj split: option.splits)
next
  case (Mismatched a)
  then show ?thesis using assms(1) by (simp add: comparable_def)
qed

lemma date_range_filter_comparable:
  assumes "comparable s" and "comparable e"
  shows "date_range_filter rs s e = filter (\<lambda>r. in_range s e (date r)) rs"
  by (simp add: date_range_filter_def date_mask_comparable [OF assms] boolean_index_map)

lemma date_range_filter_mismatched:
  "date_range_filter rs (Mismatched t) e = rs"
  by (simp add: date_range_filter_def date_mask_def col_ge_def)

text \<open>
  With a start strictly after the end no date passes both comparisons: the date filter
  retains no row and the script stops on its no-data notice, whatever the other
  selections are. The handler that puts the unfiltered rows back runs only when the
  comparison raises.
\<close>

lemma inverted_range_is_empty:
  assumes "t2 < t1"
  shows "date_range_filter (rows df) (Stamp t1) (Stamp t2) = []
         \<and> apply_filters df (Stamp t1) (Stamp t2) selected_types user_search = Inl NoDataAfterFilters
         \<and> date_range_filter (rows df) (Mismatched t1) (Stamp t2) = rows df"
proof -
  have e: "date_range_filter (rows df) (Stamp t1) (Stamp t2) = []"
    using assms
    by (auto simp: date_range_filter_comparable comparable_def in_range_def filter_empty_conv
             split: option.splits)
  have c: "category_filter ets sel [] = []" for ets sel
    by (simp add: category_filter_def)
  have u: "user_filter us [] = []" for us
    by (simp add: user_filter_def split: option.splits)
  show ?thesis
    by (simp add: e apply_filters_def c u date_range_filter_mismatched)
qed

text \<open>
  Claim C2 breaks on the code. The script's own handler answers an invalid date range by
  showing the full range, but an inverted range raises nothing and so never reaches it: on
  the three example records, the range from 2024-01-02 back to 2024-01-01 stops the script
  with no data, while the same selections with no date filter applied keep all three rows.
\<close>

theorem inverted_range_not_full_span:
  "apply_filters example_df (Stamp (ymd 2024 1 2)) (Stamp (ymd 2024 1 1)) (expense_types example_df) None
     = Inl NoDataAfterFilters
   \<and> user_filter None (category_filter (expense_types example_df) (expense_types example_df) (rows example_df))
     = rows example_df
   \<and> length (rows example_df) = 3"
  by code_simp


section \<open>Grouped sums\<close>

text \<open>
  The accumulating pass of \<open>groupby_sum\<close> computes, for every group, the sum of the amounts
  of the rows of that group.
\<close>


lemma set_dropna: "set (dropna xs) = {x. Some x \<in> set xs}"
  by (induction xs rule: dropna.induct) auto

lemma set_group_keys: "set (group_keys ks) = {k. Some k \<in> set ks}"
  by (simp add: group_keys_def set_dropna)

lemma distinct_group_keys: "distinct (group_keys ks)"
  by (simp add: group_keys_def)

lemma sorted_group_keys: "sorted (group_keys ks)"
  by (simp add: group_keys_def)

lemma index_of_less: "k \<in> set xs \<Longrightarrow> index_of k xs < length xs"
  by (induction xs) auto

lemma nth_index_of: "k \<in> set xs \<Longrightarrow> xs ! index_of k xs = k"
  by (induction xs) auto

lemma index_of_nth: "distinct xs \<Longrightarrow> i < length xs \<Longrightarrow> index_of (xs ! i) xs = i"
proof (induction xs arbitrary: i)
  case Nil
  then show ?case by simp
next
  case (Cons x xs)
  then show ?case by (cases i) auto
qed

lemma group_total_Nil [simp]: "group_total k [] = 0"
  by (simp add: group_total_def)

lemma group_total_Cons:
  "group_total k (kv # kvs) =
     (if fst kv = Some k then (case snd kv of None \<Rightarrow> 0 | Some v \<Rightarrow> v) else 0) + group_total k kvs"
  by (simp add: group_total_def split: option.splits)

lemma foldl_group_add:
  assumes "distinct us" and "length acc = length us"
    and "\<forall>kv \<in> set kvs. \<forall>k. fst kv = Some k \<longrightarrow> k \<in> set us"
  shows "foldl (group_add us) acc kvs = map2 (\<lambda>k a. a + group_total k kvs) us acc"
  using assms(2,3)
proof (induction kvs arbitrary: acc)
  case Nil
  then show ?case by (simp add: list_eq_iff_nth_eq)
next
  case (Cons kv kvs)
  obtain ko vo where kv: "kv = (ko, vo)" by (cases kv)
  have rest: "\<forall>kv \<in> set kvs. \<forall>k. fst kv = Some k \<longrightarrow> k \<in> set us"
    using Cons.prems(2) by simp
  show ?case
  proof (cases ko)
    case None
    then show ?thesis
      using Cons.IH [OF Cons.prems(1) rest] by (simp add: kv group_total_Cons)
  next
    case (Some k0)
    note k0 = this
    show ?thesis
    proof (cases vo)
      case None
      then show ?thesis
        using Cons.IH [OF Cons.prems(1) rest] by (auto simp: kv k0 group_total_Cons)
    next
      case (Some v)
      let ?i = "index_of k0 us"
      let ?acc = "acc[?i := acc ! ?i + v]"
      have mem: "k0 \<in> set us" using Cons.prems(2) by (simp add: kv k0)
      have i: "?i < length us" by (rule index_of_less [OF mem])
      have len: "length ?acc = length us" using Cons.prems(1) by simp
      have "foldl (group_add us) acc (kv # kvs) = foldl (group_add us) ?acc kvs"
        by (simp add: kv k0 Some)
      also have "\<dots> = map2 (\<lambda>k a. a + group_total k kvs) us ?acc"
        by (rule Cons.IH [OF len rest])
      also have "\<dots> = map2 (\<lambda>k a. a + group_total k (kv # kvs)) us acc"
      proof (rule nth_equalityI)
        show "length (map2 (\<lambda>k a. a + group_total k kvs) us ?acc)
                = length (map2 (\<lambda>k a. a + group_total k (kv # kvs)) us acc)"
          using Cons.prems(1) by simp
      next
        fix j assume "j < length (map2 (\<lambda>k a. a + group_total k kvs) us ?acc)"
        then have j: "j < length us" by simp
        show "map2 (\<lambda>k a. a + group_total k kvs) us ?acc ! j
                = map2 (\<lambda>k a. a + group_total k (kv # kvs)) us acc ! j"
        proof (cases "j = ?i")
          case True
          then have "us ! j = k0" using nth_index_of [OF mem] by simp
          then show ?thesis
            using j True Cons.prems(1) by (simp add: kv k0 Some group_total_Cons)
        next
          case False
          then have "us ! j \<noteq> k0" using index_of_nth [OF assms(1) j] by auto
          then show ?thesis
            using j False Cons.prems(1) by (simp add: kv k0 Some group_total_Cons)
        qed
      qed
      finally show ?thesis .
    qed
  qed
qed

lemma groupby_sum_eq:
  "groupby_sum kvs = map (\<lambda>k. (k, group_total k kvs)) (group_keys (map fst kvs))"
proof -
  let ?us = "group_keys (map fst kvs)"
  have "foldl (group_add ?us) (replicate (length ?us) 0) kvs
          = map2 (\<lambda>k a. a + group_total k kvs) ?us (replicate (length ?us) 0)"
    by (rule foldl_group_add) (force simp: distinct_group_keys set_group_keys)+
  also have "\<dots> = map (\<lambda>k. group_total k kvs) ?us"
    by (simp add: list_eq_iff_nth_eq)
  finally show ?thesis
    by (simp add: groupby_sum_def Let_def zip_map2 zip_same_conv_map)
qed

lemma map_fst_groupby_sum: "map fst (groupby_sum kvs) = group_keys (map fst kvs)"
  by (simp add: groupby_sum_eq comp_def)

lemma aggregate_by_date_eq:
  "aggregate_by_date rs =
     map (\<lambda>d. (d, sum_list (dropna (map amount (filter (\<lambda>r. date r = Some d) rs)))))
       (group_keys (map date rs))"
proof -
  let ?kvs = "map (\<lambda>r. (date r, amount r)) rs"
  have t: "group_total d ?kvs = sum_list (dropna (map amount (filter (\<lambda>r. date r = Some d) rs)))" for d
    by (simp add: group_total_def filter_map comp_def)
  have "sorted (map fst (groupby_sum ?kvs))"
    by (simp add: map_fst_groupby_sum sorted_group_keys)
  then have "sort_key fst (groupby_sum ?kvs) = groupby_sum ?kvs"
    by (rule sort_key_id_if_sorted)
  then show ?thesis
    by (simp add: aggregate_by_date_def groupby_sum_eq t comp_def)
qed




section \<open>The daily series\<close>

text \<open>
  Claim C6. For every list of filtered rows, the dates of the daily series are strictly
  increasing, so each appears once; they are exactly the dates present in the rows; and
  the total of each entry is the sum of the amounts of the rows of that date (a missing
  amount adds nothing).
\<close>

theorem aggregate_by_date_strictly_increasing:
  "sorted_wrt (<) (map fst (aggregate_by_date rs))
   \<and> distinct (map fst (aggregate_by_date rs))
   \<and> set (map fst (aggregate_by_date rs)) = {d. Some d \<in> date ` set rs}
   \<and> (\<forall>p \<in> set (aggregate_by_date rs).
         snd p = sum_list (dropna (map amount (filter (\<lambda>r. date r = Some (fst p)) rs))))"
proof -
  have keys: "map fst (aggregate_by_date rs) = group_keys (map date rs)"
    by (simp add: aggregate_by_date_eq comp_def)
  have "sorted (group_keys (map date rs))" and d: "distinct (group_keys (map date rs))"
    by (rule sorted_group_keys, rule distinct_group_keys)
  then have s: "sorted_wrt (<) (group_keys (map date rs))"
    by (simp add: strict_sorted_iff)
  have m: "set (group_keys (map date rs)) = {d. Some d \<in> date ` set rs}"
    by (simp add: set_group_keys)
  have t: "\<forall>p \<in> set (aggregate_by_date rs).
         snd p = sum_list (dropna (map amount (filter (\<lambda>r. date r = Some (fst p)) rs)))"
    by (auto simp: aggregate_by_date_eq)
  show ?thesis
    using s d m t by (simp only: keys) 
qed

theorem aggregate_by_date_strictly_increasing_witness:
  "aggregate_by_date (rows example_df) = [(ymd 2024 1 1, 150), (ymd 2024 1 2, 10)]
   \<and> sorted_wrt (<) (map fst (aggregate_by_date (rows example_df)))
   \<and> distinct (map fst (aggregate_by_date (rows example_df)))
   \<and> set (map fst (aggregate_by_date (rows example_df))) = {d. Some d \<in> date ` set (rows example_df)}
   \<and> (150 :: real)
       = sum_list (dropna (map amount (filter (\<lambda>r. date r = Some (ymd 2024 1 1)) (rows example_df))))"
proof -
  have e: "aggregate_by_date (rows example_df) = [(ymd 2024 1 1, 150), (ymd 2024 1 2, 10)]"
    by code_simp
  then have m: "(ymd 2024 1 1, 150) \<in> set (aggregate_by_date (rows example_df))"
    by simp
  show ?thesis
    using e m aggregate_by_date_strictly_increasing [of "rows example_df"] by fastforce
qed

text \<open>
  Claim C10. When both bounds of the range can be compared with the date column, every
  row the date filter retains has a date: a row whose date is missing fails the inclusive
  comparison. The dates of the daily series computed from the retained rows are then
  exactly the dates of those rows, with no group for a missing date.
\<close>

theorem date_range_filter_drops_null_dates:
  assumes "comparable start_date" and "comparable end_date"
  shows "(\<forall>r \<in> set (date_range_filter rs start_date end_date). date r \<noteq> None)
         \<and> Some ` fst ` set (aggregate_by_date (date_range_filter rs start_date end_date))
             = date ` set (date_range_filter rs start_date end_date)"
proof -
  let ?f = "date_range_filter rs start_date end_date"
  have n: "\<forall>r \<in> set ?f. date r \<noteq> None"
    by (auto simp: date_range_filter_comparable [OF assms] in_range_def
             split: bound.splits option.splits)
  have "fst ` set (aggregate_by_date ?f) = {d. Some d \<in> date ` set ?f}"
    by (simp add: aggregate_by_date_eq set_group_keys image_image)
  then have "Some ` fst ` set (aggregate_by_date ?f) = Some ` {d. Some d \<in> date ` set ?f}"
    by simp
  also have "\<dots> = date ` set ?f"
    using n by (auto simp: image_iff) (metis not_None_eq)
  finally show ?thesis using n by blast
qed

theorem date_range_filter_drops_null_dates_witness:
  "comparable (Stamp (ymd 2024 1 1)) \<and> comparable (Stamp (ymd 2024 1 2))
   \<and> date_range_filter (rows unparsed_df) (Stamp (ymd 2024 1 1)) (Stamp (ymd 2024 1 2))
       = [rows unparsed_df ! 0]
   \<and> date (rows unparsed_df ! 0) \<noteq> None
   \<and> Some ` fst ` set (aggregate_by_date
         (date_range_filter (rows unparsed_df) (Stamp (ymd 2024 1 1)) (Stamp (ymd 2024 1 2))))
       = date ` set (date_range_filter (rows unparsed_df) (Stamp (ymd 2024 1 1)) (Stamp (ymd 2024 1 2)))"
proof -
  have a: "comparable (Stamp (ymd 2024 1 1))" by (simp add: comparable_def)
  have b: "comparable (Stamp (ymd 2024 1 2))" by (simp add: comparable_def)
  have e: "date_range_filter (rows unparsed_df) (Stamp (ymd 2024 1 1)) (Stamp (ymd 2024 1 2))
       = [rows unparsed_df ! 0]"
    by code_simp
  then have m: "rows unparsed_df ! 0
      \<in> set (date_range_filter (rows unparsed_df) (Stamp (ymd 2024 1 1)) (Stamp (ymd 2024 1 2)))"
    by simp
  show ?thesis
    using a b e m date_range_filter_drops_null_dates [OF a b, of "rows unparsed_df"] by blast
qed

section \<open>The category filter\<close>

text \<open>
  Claim C9. With no expense type selected the category filter is skipped and returns the
  rows it was given, so the filtered set is what the date and user filters leave; a row is
  excluded by the category filter only when the selection is not empty, and then because
  its expense type is not in the selection.
\<close>

theorem category_filter_skipped_when_none_selected:
  "category_filter ets [] rs = rs
   \<and> (\<forall>r \<in> set rs. r \<notin> set (category_filter ets selected_types rs)
         \<longrightarrow> selected_types \<noteq> [] \<and> \<not> isin (expense_type r) selected_types)
   \<and> apply_filters df start_date end_date [] user_search =
       (if user_filter user_search (date_range_filter (rows df) start_date end_date) = []
        then Inl NoDataAfterFilters
        else Inr (user_filter user_search (date_range_filter (rows df) start_date end_date)))"
  by (auto simp: category_filter_def apply_filters_def Let_def split: if_splits)

theorem category_filter_skipped_when_none_selected_witness:
  "rows example_df ! 2 \<in> set (rows example_df)
   \<and> rows example_df ! 2 \<notin> set (category_filter (expense_types example_df) [''food''] (rows example_df))
   \<and> [''food''] \<noteq> ([] :: string list)
   \<and> \<not> isin (expense_type (rows example_df ! 2)) [''food'']
   \<and> category_filter (expense_types example_df) [] (rows example_df) = rows example_df"
proof -
  have m: "rows example_df ! 2 \<in> set (rows example_df)" by (simp add: example_df_def)
  have x: "rows example_df ! 2 \<notin> set (category_filter (expense_types example_df) [''food''] (rows example_df))"
    by code_simp
  show ?thesis
    using m x category_filter_skipped_when_none_selected
                [of "expense_types example_df" "rows example_df" "[''food'']"]
    by blast
qed

section \<open>The example of three records, end to end\<close>

text \<open>
  Claim C8. On the three records (2024-01-01, 100, food), (2024-01-01, 50, food) and
  (2024-01-02, 10, travel), read from CSV text and run with every filter at its default,
  the daily series is [(2024-01-01, 150), (2024-01-02, 10)] and the category summary is
  food 150, travel 10.
\<close>

theorem three_records_example:
  "run_defaults csv_to_datetime csv_to_numeric example_csv =
     Inr ([(ymd 2024 1 1, 150), (ymd 2024 1 2, 10)], Some [(''food'', 150), (''travel'', 10)])"
  by code_simp


section \<open>Binary64 rounding\<close>

text \<open>
  The exponent functions return the binary exponent of their argument, so \<open>round64\<close> rounds
  to the nearest multiple of the spacing at its argument; the two rules below compute it
  at a given number, away from a tie and at a tie. Rounding keeps the sign.
\<close>

lemma pow2_pos: "0 < pow2 e"
  by (simp add: pow2_def)

lemma pow2_nat: "pow2 (int k) = 2 ^ k"
  by (simp add: pow2_def)

lemma pow2_nat_Suc: "pow2 (int k + 1) = 2 ^ (k + 1)"
  by (simp add: pow2_def nat_add_distrib)

lemma pow2_neg_nat: "pow2 (- int k) = 1 / 2 ^ k"
  by (cases k) (simp_all add: pow2_def nat_add_distrib)

lemma pow2_neg_nat_Suc: "pow2 (- int (k + 1) + 1) = 1 / 2 ^ k"
  using pow2_neg_nat [of k] by simp

lemma half_power_le_1: "1 / 2 ^ k \<le> (1 :: real)"
  using one_le_power [of "2 :: real" k] by (simp add: field_simps)

lemma expo_hi_eq: "2 ^ k \<le> x \<Longrightarrow> x < 2 ^ (k + 1) \<Longrightarrow> expo_hi x = int k"
proof (induction k arbitrary: x)
  case 0
  then show ?case by (subst expo_hi.simps) simp
next
  case (Suc k)
  have "2 \<le> x"
  proof -
    have "(2 :: real) \<le> 2 ^ Suc k" by (simp add: self_le_power)
    then show ?thesis using Suc.prems(1) by linarith
  qed
  moreover have "expo_hi (x / 2) = int k"
    using Suc.prems by (intro Suc.IH) simp_all
  ultimately show ?case by (subst expo_hi.simps) simp
qed

lemma expo_lo_eq: "1 / 2 ^ (k + 1) \<le> x \<Longrightarrow> x < 1 / 2 ^ k \<Longrightarrow> expo_lo x = - int (k + 1)"
proof (induction k arbitrary: x)
  case 0
  then have x: "0 < x" "x < 1" "\<not> 2 * x < 1" by simp_all
  have "expo_lo (2 * x) = 0" using x(3) by (subst expo_lo.simps) simp
  then show ?case using x by (subst expo_lo.simps) simp
next
  case (Suc k)
  have pos: "0 < x"
  proof -
    have "(0 :: real) < 1 / 2 ^ (Suc k + 1)" by simp
    then show ?thesis using Suc.prems(1) by linarith
  qed
  have lt1: "x < 1"
  proof -
    have "(1 :: real) / 2 ^ Suc k \<le> 1" by (rule half_power_le_1)
    then show ?thesis using Suc.prems(2) by linarith
  qed
  have "expo_lo (2 * x) = - int (k + 1)"
    using Suc.prems by (intro Suc.IH) (simp_all add: field_simps)
  then show ?case using pos lt1 by (subst expo_lo.simps) simp
qed

lemma exponent_eq:
  assumes "pow2 e \<le> x" and "x < pow2 (e + 1)"
  shows "exponent x = e"
proof (cases "0 \<le> e")
  case True
  then obtain k where e: "e = int k" using nonneg_int_cases by blast
  have lo: "2 ^ k \<le> x" using assms(1) by (simp add: e pow2_nat)
  have hi: "x < 2 ^ (k + 1)" using assms(2) by (simp only: e pow2_nat_Suc)
  have "1 \<le> x"
  proof -
    have "(1 :: real) \<le> 2 ^ k" by (simp add: one_le_power)
    then show ?thesis using lo by linarith
  qed
  then show ?thesis by (simp add: exponent_def expo_hi_eq [OF lo hi] e)
next
  case False
  then have "e = - int (nat (- e - 1) + 1)" by simp
  then obtain k where e: "e = - int (k + 1)" ..
  have lo: "1 / 2 ^ (k + 1) \<le> x" using assms(1) by (simp only: e pow2_neg_nat)
  have hi: "x < 1 / 2 ^ k" using assms(2) by (simp only: e pow2_neg_nat_Suc)
  have "x < 1"
  proof -
    have "(1 :: real) / 2 ^ k \<le> 1" by (rule half_power_le_1)
    then show ?thesis using hi by linarith
  qed
  then show ?thesis by (simp add: exponent_def expo_lo_eq [OF lo hi] e)
qed

lemma round_half_even_near:
  assumes "\<bar>y - of_int n\<bar> < 1 / 2"
  shows "round_half_even y = n"
proof (cases "of_int n \<le> y")
  case True
  then have f: "\<lfloor>y\<rfloor> = n" using assms by (simp add: floor_eq_iff; linarith)
  show ?thesis using assms True by (simp add: round_half_even_def f Let_def)
next
  case False
  then have f: "\<lfloor>y\<rfloor> = n - 1" using assms by (simp add: floor_eq_iff; linarith)
  show ?thesis using assms False by (simp add: round_half_even_def f Let_def)
qed

lemma round_half_even_tie:
  assumes "y = of_int n + 1 / 2"
  shows "round_half_even y = (if even n then n else n + 1)"
proof -
  have f: "\<lfloor>y\<rfloor> = n" using assms by (simp add: floor_eq_iff)
  show ?thesis by (simp add: round_half_even_def f Let_def assms)
qed

lemma round64I:
  assumes "pow2 e \<le> \<bar>x\<bar>" and "\<bar>x\<bar> < pow2 (e + 1)" and "- 1022 \<le> e"
    and "\<bar>x / pow2 (e - 52) - of_int n\<bar> < 1 / 2"
    and "r = of_int n * pow2 (e - 52)"
  shows "round64 x = r"
proof -
  have nz: "x \<noteq> 0" using assms(1) pow2_pos [of e] by auto
  have ex: "exponent \<bar>x\<bar> = e" by (rule exponent_eq [OF assms(1,2)])
  have "max e (- 1022) = e" using assms(3) by simp
  then show ?thesis
    by (simp add: round64_def nz ex Let_def round_half_even_near [OF assms(4)] assms(5))
qed

lemma round64_tieI:
  assumes "pow2 e \<le> \<bar>x\<bar>" and "\<bar>x\<bar> < pow2 (e + 1)" and "- 1022 \<le> e"
    and "x / pow2 (e - 52) = of_int n + 1 / 2"
    and "r = of_int (if even n then n else n + 1) * pow2 (e - 52)"
  shows "round64 x = r"
proof -
  have nz: "x \<noteq> 0" using assms(1) pow2_pos [of e] by auto
  have ex: "exponent \<bar>x\<bar> = e" by (rule exponent_eq [OF assms(1,2)])
  have "max e (- 1022) = e" using assms(3) by simp
  then show ?thesis
    by (simp add: round64_def nz ex Let_def round_half_even_tie [OF assms(4)] assms(5))
qed

lemma round64_sqrtI:
  assumes "(pow2 e)\<^sup>2 \<le> v" and "v < (pow2 (e + 1))\<^sup>2" and "- 1022 \<le> e"
    and "0 \<le> of_int n - (1 / 2 :: real)"
    and "((of_int n - 1 / 2) * pow2 (e - 52))\<^sup>2 < v"
    and "v < ((of_int n + 1 / 2) * pow2 (e - 52))\<^sup>2"
    and "r = of_int n * pow2 (e - 52)"
  shows "round64 (sqrt v) = r"
proof (rule round64I [OF _ _ assms(3) _ assms(7)])
  let ?q = "pow2 (e - 52)"
  have q: "0 < ?q" by (rule pow2_pos)
  have v: "0 \<le> v" using assms(1) by (meson order_trans zero_le_power2)
  have s: "0 \<le> sqrt v" using v by simp
  show "pow2 e \<le> \<bar>sqrt v\<bar>"
    using assms(1) s by (simp add: real_le_rsqrt)
  show "\<bar>sqrt v\<bar> < pow2 (e + 1)"
    using assms(2) s pow2_pos [of "e + 1"] by (simp add: real_less_lsqrt)
  have lo: "(of_int n - 1 / 2) * ?q < sqrt v"
    using assms(5) by (rule real_less_rsqrt)
  have "0 \<le> (of_int n + 1 / 2) * ?q" using assms(4) q by simp
  then have hi: "sqrt v < (of_int n + 1 / 2) * ?q"
    using assms(6) by (intro real_less_lsqrt) simp_all
  have "of_int n - 1 / 2 < sqrt v / ?q" using lo q by (simp add: pos_less_divide_eq)
  moreover have "sqrt v / ?q < of_int n + 1 / 2" using hi q by (simp add: pos_divide_less_eq)
  ultimately show "\<bar>sqrt v / ?q - of_int n\<bar> < 1 / 2" by linarith
qed





section \<open>Outliers\<close>

subsection \<open>Unfolding the detector\<close>

lemma add_seq_Nil: "add_seq rnd a [] = a"
  by (simp add: add_seq_def)

lemma add_seq_Cons: "add_seq rnd a (x # xs) = add_seq rnd (rnd (a + x)) xs"
  by (simp add: add_seq_def)

lemma pairwise_sum_small: "length xs < 8 \<Longrightarrow> pairwise_sum rnd xs = add_seq rnd 0 xs"
  by (subst pairwise_sum.simps) simp

lemma series_mean_eval:
  "xs \<noteq> [] \<Longrightarrow> series_mean rnd xs = Some (rnd (pairwise_sum rnd xs / real (length xs)))"
  by (simp add: series_mean_def)

lemma series_var0_eval:
  "series_mean rnd xs = Some m \<Longrightarrow>
   series_var0 rnd xs =
     Some (rnd (pairwise_sum rnd (map (\<lambda>x. rnd (rnd (m - x) * rnd (m - x))) xs)
                  / real (length xs)))"
  by (simp add: series_var0_def)

lemma series_std0_eval:
  "series_var0 rnd xs = Some v \<Longrightarrow> 0 \<le> v \<Longrightarrow> series_std0 rnd xs = Some (rnd (sqrt v))"
  by (simp add: series_std0_def)

lemma z_scores_eval:
  "series_mean rnd xs = Some m \<Longrightarrow> series_std0 rnd xs = Some sd \<Longrightarrow> sd \<noteq> 0 \<Longrightarrow>
   z_scores rnd xs = map (\<lambda>x. Some (rnd (rnd (x - m) / sd))) xs"
  by (simp add: z_scores_def)

lemma z_scores_degenerate:
  "series_std0 rnd xs = Some 0 \<Longrightarrow> z_scores rnd xs = map (\<lambda>x. None) xs"
  by (simp add: z_scores_def split: option.splits)

subsection \<open>With exact arithmetic the detector computes the population z-score\<close>

lemma add_seq_exact:
  assumes "\<And>x. rnd x = x"
  shows "add_seq rnd a xs = a + sum_list xs"
  by (induction xs arbitrary: a) (simp_all add: add_seq_def assms)

lemma sum_list_map2_add:
  "length r = length b \<Longrightarrow> sum_list (map2 (\<lambda>a x. a + x) r b) = sum_list r + sum_list (b :: real list)"
  by (induction r b rule: list_induct2) simp_all

lemma lanes8_exact:
  "(\<And>x. rnd x = x) \<Longrightarrow> lanes8 rnd r xs = (r', rest) \<Longrightarrow> length r = 8 \<Longrightarrow>
   length r' = 8 \<and> sum_list r' + sum_list rest = sum_list r + sum_list xs"
proof (induction rnd r xs rule: lanes8.induct)
  case (1 rnd r xs)
  note exact = "1.prems"(1)
  show ?case
  proof (cases "8 \<le> length xs")
    case True
    let ?r = "map2 (\<lambda>a x. rnd (a + x)) r (take 8 xs)"
    have step: "lanes8 rnd ?r (drop 8 xs) = (r', rest)"
      using "1.prems"(2) True by (subst (asm) lanes8.simps) simp
    have len: "length ?r = 8" using "1.prems"(3) True by simp
    have "?r = map2 (\<lambda>a x. a + x) r (take 8 xs)" by (simp add: exact)
    moreover have "length r = length (take 8 xs)" using "1.prems"(3) True by simp
    ultimately have "sum_list ?r = sum_list r + sum_list (take 8 xs)"
      by (simp only: sum_list_map2_add)
    moreover have "sum_list (take 8 xs) + sum_list (drop 8 xs) = sum_list xs"
      by (metis append_take_drop_id sum_list_append)
    ultimately show ?thesis
      using "1.IH" [OF True exact step len] by simp
  next
    case False
    then show ?thesis
      using "1.prems"(2,3) by (subst (asm) lanes8.simps) simp
  qed
qed

lemma combine8_exact:
  assumes "\<And>x. rnd x = x" and "length r = 8"
  shows "combine8 rnd r = sum_list r"
proof -
  obtain a b c d e f g h where "r = [a, b, c, d, e, f, g, h]"
    using assms(2) by (auto simp: eval_nat_numeral length_Suc_conv)
  then show ?thesis by (simp add: combine8_def assms(1))
qed

lemma pairwise_sum_exact:
  "(\<And>x. rnd x = x) \<Longrightarrow> pairwise_sum rnd xs = sum_list xs"
proof (induction rnd xs rule: pairwise_sum.induct)
  case (1 rnd xs)
  note exact = "1.prems"
  consider "length xs < 8" | "8 \<le> length xs" "length xs \<le> 128" | "128 < length xs"
    by linarith
  then show ?case
  proof cases
    case 1
    then show ?thesis
      by (subst pairwise_sum.simps) (simp add: add_seq_exact [OF exact])
  next
    case 2
    obtain r rest where l: "lanes8 rnd (take 8 xs) (drop 8 xs) = (r, rest)"
      by (cases "lanes8 rnd (take 8 xs) (drop 8 xs)")
    have len: "length (take 8 xs) = 8" using 2(1) by simp
    have e: "length r = 8 \<and> sum_list r + sum_list rest = sum_list (take 8 xs) + sum_list (drop 8 xs)"
      by (rule lanes8_exact [OF exact l len])
    have "sum_list (take 8 xs) + sum_list (drop 8 xs) = sum_list xs"
      by (metis append_take_drop_id sum_list_append)
    then show ?thesis
      using 2 e
      by (subst pairwise_sum.simps)
         (simp add: l add_seq_exact [OF exact] combine8_exact [OF exact])
  next
    case 3
    let ?n = "length xs div 2 - length xs div 2 mod 8"
    have a: "pairwise_sum rnd (take ?n xs) = sum_list (take ?n xs)"
      using 3 by (intro "1.IH"(1) exact) simp_all
    have b: "pairwise_sum rnd (drop ?n xs) = sum_list (drop ?n xs)"
      using 3 by (intro "1.IH"(2) exact) simp_all
    have "sum_list (take ?n xs) + sum_list (drop ?n xs) = sum_list xs"
      by (metis append_take_drop_id sum_list_append)
    then show ?thesis
      using 3 by (subst pairwise_sum.simps) (simp add: a b exact)
  qed
qed

lemma series_mean_exact:
  assumes "\<And>x. rnd x = x" and "xs \<noteq> []"
  shows "series_mean rnd xs = Some (population_mean xs)"
  using assms(2) by (simp add: series_mean_def population_mean_def pairwise_sum_exact [OF assms(1)] assms(1))

lemma sum_list_squares_nonneg: "0 \<le> sum_list (map (\<lambda>x. (x - a)\<^sup>2) xs)" for a :: real
  by (induction xs) auto

lemma series_std0_exact:
  assumes "\<And>x. rnd x = x" and "xs \<noteq> []"
  shows "series_std0 rnd xs = Some (population_stddev xs)"
proof -
  let ?m = "population_mean xs"
  have "map (\<lambda>x. rnd (rnd (?m - x) * rnd (?m - x))) xs = map (\<lambda>x. (x - ?m)\<^sup>2) xs"
    by (simp add: assms(1) power2_eq_square algebra_simps)
  then have v: "series_var0 rnd xs = Some (sum_list (map (\<lambda>x. (x - ?m)\<^sup>2) xs) / real (length xs))"
    unfolding series_var0_eval [OF series_mean_exact [OF assms]]
    by (simp only: pairwise_sum_exact [OF assms(1)] assms(1))
  have "0 \<le> sum_list (map (\<lambda>x. (x - ?m)\<^sup>2) xs) / real (length xs)"
    by (simp add: sum_list_squares_nonneg)
  then show ?thesis
    by (simp add: series_std0_eval [OF v] assms(1) population_stddev_def)
qed

lemma outlier_flags_exact:
  assumes "\<And>x. rnd x = x" and "i < length xs"
  shows "outlier_flags rnd xs ! i \<longleftrightarrow> population_stddev xs \<noteq> 0 \<and> 2 \<le> population_z xs (xs ! i)"
proof -
  have ne: "xs \<noteq> []" using assms(2) by auto
  note m = series_mean_exact [OF assms(1) ne]
  note s = series_std0_exact [OF assms(1) ne]
  show ?thesis
  proof (cases "population_stddev xs = 0")
    case True
    then have "z_scores rnd xs = map (\<lambda>x. None) xs"
      using s by (intro z_scores_degenerate) simp
    then show ?thesis using True assms(2) by (simp add: outlier_flags_def z_ge_def)
  next
    case False
    have "z_scores rnd xs = map (\<lambda>x. Some (rnd (rnd (x - population_mean xs) / population_stddev xs))) xs"
      by (rule z_scores_eval [OF m s False])
    then show ?thesis
      using False assms(2) by (simp add: outlier_flags_def z_ge_def assms(1) population_z_def)
  qed
qed

subsection \<open>With binary64 arithmetic\<close>




subsection \<open>The detector on four series\<close>





















































lemma threshold_sum_1: "round64 (0 + 17) = 17"
  by (rule round64I [where e = "4" and n = "4785074604081152"]) (simp_all add: pow2_def)

lemma threshold_sum_2: "round64 (17 + 17) = 34"
  by (rule round64I [where e = "5" and n = "4785074604081152"]) (simp_all add: pow2_def)

lemma threshold_sum_3: "round64 (34 + 17) = 51"
  by (rule round64I [where e = "5" and n = "7177611906121728"]) (simp_all add: pow2_def)

lemma threshold_sum_4: "round64 (51 + 17) = 68"
  by (rule round64I [where e = "6" and n = "4785074604081152"]) (simp_all add: pow2_def)

lemma threshold_sum_5: "round64 (68 + 170) = 238"
  by (rule round64I [where e = "7" and n = "8373880557142016"]) (simp_all add: pow2_def)

lemma threshold_mean_r: "round64 (238 / real (length [17, 17, 17, 17, (170 :: real)])) = 6699104445713613 / 140737488355328"
  by (rule round64I [where e = "5" and n = "6699104445713613"]) (simp_all add: pow2_def)

lemma threshold_mean: "series_mean round64 [17, 17, 17, 17, (170 :: real)] = Some (6699104445713613 / 140737488355328)"
proof -
  have a: "series_mean round64 [17, 17, 17, 17, (170 :: real)]
             = Some (round64 (pairwise_sum round64 [17, 17, 17, 17, (170 :: real)] / real (length [17, 17, 17, 17, (170 :: real)])))"
    by (rule series_mean_eval) simp
  have "pairwise_sum round64 [17, 17, 17, 17, (170 :: real)] = add_seq round64 0 [17, 17, 17, 17, (170 :: real)]"
    by (rule pairwise_sum_small) simp
  also have "\<dots> = 238"
    by (simp only: add_seq_Cons add_seq_Nil threshold_sum_1 threshold_sum_2 threshold_sum_3 threshold_sum_4 threshold_sum_5)
  finally have s: "pairwise_sum round64 [17, 17, 17, 17, (170 :: real)] = 238" .
  show ?thesis by (simp only: a s threshold_mean_r)
qed

lemma threshold_dev_1: "round64 ((6699104445713613 / 140737488355328) - 17) = 4306567143673037 / 140737488355328"
  by (rule round64I [where e = "4" and n = "8613134287346074"]) (simp_all add: pow2_def)

lemma threshold_sq_1: "round64 ((4306567143673037 / 140737488355328) * (4306567143673037 / 140737488355328)) = 2059077415568671 / 2199023255552"
  by (rule round64I [where e = "9" and n = "8236309662274684"]) (simp_all add: pow2_def)

lemma threshold_dev_2: "round64 ((6699104445713613 / 140737488355328) - 170) = - (4306567143673037 / 35184372088832)"
  by (rule round64_tieI [where e = "6" and n = "- 8613134287346074"]) (simp_all add: pow2_def)

lemma threshold_sq_2: "round64 ((- (4306567143673037 / 35184372088832)) * (- (4306567143673037 / 35184372088832))) = 2059077415568671 / 137438953472"
  by (rule round64I [where e = "13" and n = "8236309662274684"]) (simp_all add: pow2_def)

lemma threshold_sqsum_1: "round64 (0 + (2059077415568671 / 2199023255552)) = 2059077415568671 / 2199023255552"
  by (rule round64I [where e = "9" and n = "8236309662274684"]) (simp_all add: pow2_def)

lemma threshold_sqsum_2: "round64 ((2059077415568671 / 2199023255552) + (2059077415568671 / 2199023255552)) = 2059077415568671 / 1099511627776"
  by (rule round64I [where e = "10" and n = "8236309662274684"]) (simp_all add: pow2_def)

lemma threshold_sqsum_3: "round64 ((2059077415568671 / 1099511627776) + (2059077415568671 / 2199023255552)) = 6177232246706013 / 2199023255552"
  by (rule round64I [where e = "11" and n = "6177232246706013"]) (simp_all add: pow2_def)

lemma threshold_sqsum_4: "round64 ((6177232246706013 / 2199023255552) + (2059077415568671 / 2199023255552)) = 2059077415568671 / 549755813888"
  by (rule round64I [where e = "11" and n = "8236309662274684"]) (simp_all add: pow2_def)

lemma threshold_sqsum_5: "round64 ((2059077415568671 / 549755813888) + (2059077415568671 / 137438953472)) = 2573846769460839 / 137438953472"
  by (rule round64_tieI [where e = "14" and n = "5147693538921677"]) (simp_all add: pow2_def)

lemma threshold_var_r: "round64 ((2573846769460839 / 137438953472) / real (length [17, 17, 17, 17, (170 :: real)])) = 8236309662274685 / 2199023255552"
  by (rule round64I [where e = "11" and n = "8236309662274685"]) (simp_all add: pow2_def)

lemma threshold_var: "series_var0 round64 [17, 17, 17, 17, (170 :: real)] = Some (8236309662274685 / 2199023255552)"
proof -
  have a: "series_var0 round64 [17, 17, 17, 17, (170 :: real)]
             = Some (round64 (pairwise_sum round64
                       (map (\<lambda>x. round64 (round64 ((6699104445713613 / 140737488355328) - x) * round64 ((6699104445713613 / 140737488355328) - x))) [17, 17, 17, 17, (170 :: real)])
                     / real (length [17, 17, 17, 17, (170 :: real)])))"
    by (rule series_var0_eval [OF threshold_mean])
  have m: "map (\<lambda>x. round64 (round64 ((6699104445713613 / 140737488355328) - x) * round64 ((6699104445713613 / 140737488355328) - x))) [17, 17, 17, 17, (170 :: real)]
             = [2059077415568671 / 2199023255552, 2059077415568671 / 2199023255552, 2059077415568671 / 2199023255552, 2059077415568671 / 2199023255552, (2059077415568671 / 137438953472 :: real)]"
    by (simp only: list.map threshold_dev_1 threshold_sq_1 threshold_dev_2 threshold_sq_2)
  have "pairwise_sum round64 [2059077415568671 / 2199023255552, 2059077415568671 / 2199023255552, 2059077415568671 / 2199023255552, 2059077415568671 / 2199023255552, (2059077415568671 / 137438953472 :: real)] = add_seq round64 0 [2059077415568671 / 2199023255552, 2059077415568671 / 2199023255552, 2059077415568671 / 2199023255552, 2059077415568671 / 2199023255552, (2059077415568671 / 137438953472 :: real)]"
    by (rule pairwise_sum_small) simp
  also have "\<dots> = 2573846769460839 / 137438953472"
    by (simp only: add_seq_Cons add_seq_Nil threshold_sqsum_1 threshold_sqsum_2 threshold_sqsum_3 threshold_sqsum_4 threshold_sqsum_5)
  finally have s: "pairwise_sum round64 [2059077415568671 / 2199023255552, 2059077415568671 / 2199023255552, 2059077415568671 / 2199023255552, 2059077415568671 / 2199023255552, (2059077415568671 / 137438953472 :: real)] = 2573846769460839 / 137438953472" .
  show ?thesis by (simp only: a m s threshold_var_r)
qed

lemma threshold_std_r: "round64 (sqrt (8236309662274685 / 2199023255552)) = 8613134287346075 / 140737488355328"
  by (rule round64_sqrtI [where e = "5" and n = "8613134287346075"]) (simp_all add: pow2_def power2_eq_square)

lemma threshold_std: "series_std0 round64 [17, 17, 17, 17, (170 :: real)] = Some (8613134287346075 / 140737488355328)"
proof -
  have a: "series_std0 round64 [17, 17, 17, 17, (170 :: real)] = Some (round64 (sqrt (8236309662274685 / 2199023255552)))"
    by (rule series_std0_eval [OF threshold_var]) simp
  show ?thesis by (simp only: a threshold_std_r)
qed

lemma threshold_dist_1: "round64 (17 - (6699104445713613 / 140737488355328)) = - (4306567143673037 / 140737488355328)"
  by (rule round64I [where e = "4" and n = "- 8613134287346074"]) (simp_all add: pow2_def)

lemma threshold_quot_1: "round64 ((- (4306567143673037 / 140737488355328)) / (8613134287346075 / 140737488355328)) = - (9007199254740991 / 18014398509481984)"
  by (rule round64I [where e = "- 2" and n = "- 9007199254740991"]) (simp_all add: pow2_def)

lemma threshold_dist_2: "round64 (170 - (6699104445713613 / 140737488355328)) = 4306567143673037 / 35184372088832"
  by (rule round64_tieI [where e = "6" and n = "8613134287346073"]) (simp_all add: pow2_def)

lemma threshold_quot_2: "round64 ((4306567143673037 / 35184372088832) / (8613134287346075 / 140737488355328)) = 9007199254740991 / 4503599627370496"
  by (rule round64I [where e = "0" and n = "9007199254740991"]) (simp_all add: pow2_def)

lemma threshold_z: "z_scores round64 [17, 17, 17, 17, (170 :: real)] = [Some (- (9007199254740991 / 18014398509481984)), Some (- (9007199254740991 / 18014398509481984)), Some (- (9007199254740991 / 18014398509481984)), Some (- (9007199254740991 / 18014398509481984)), Some (9007199254740991 / 4503599627370496)]"
proof -
  have nz: "(8613134287346075 / 140737488355328 :: real) \<noteq> 0" by simp
  have a: "z_scores round64 [17, 17, 17, 17, (170 :: real)]
             = map (\<lambda>x. Some (round64 (round64 (x - (6699104445713613 / 140737488355328)) / (8613134287346075 / 140737488355328)))) [17, 17, 17, 17, (170 :: real)]"
    by (rule z_scores_eval [OF threshold_mean threshold_std nz])
  show ?thesis by (simp only: a list.map threshold_dist_1 threshold_quot_1 threshold_dist_2 threshold_quot_2)
qed

lemma threshold_flags: "outlier_flags round64 [17, 17, 17, 17, (170 :: real)] = [False, False, False, False, False]"
  by (simp add: outlier_flags_def threshold_z z_ge_def)

lemma tenths_sum_1: "round64 (0 + (3602879701896397 / 36028797018963968)) = 3602879701896397 / 36028797018963968"
  by (rule round64I [where e = "- 4" and n = "7205759403792794"]) (simp_all add: pow2_def)

lemma tenths_sum_2: "round64 ((3602879701896397 / 36028797018963968) + (3602879701896397 / 36028797018963968)) = 3602879701896397 / 18014398509481984"
  by (rule round64I [where e = "- 3" and n = "7205759403792794"]) (simp_all add: pow2_def)

lemma tenths_sum_3: "round64 ((3602879701896397 / 18014398509481984) + (3602879701896397 / 36028797018963968)) = 1351079888211149 / 4503599627370496"
  by (rule round64_tieI [where e = "- 2" and n = "5404319552844595"]) (simp_all add: pow2_def)

lemma tenths_mean_r: "round64 ((1351079888211149 / 4503599627370496) / real (length [3602879701896397 / 36028797018963968, 3602879701896397 / 36028797018963968, (3602879701896397 / 36028797018963968 :: real)])) = 7205759403792795 / 72057594037927936"
  by (rule round64I [where e = "- 4" and n = "7205759403792795"]) (simp_all add: pow2_def)

lemma tenths_mean: "series_mean round64 [3602879701896397 / 36028797018963968, 3602879701896397 / 36028797018963968, (3602879701896397 / 36028797018963968 :: real)] = Some (7205759403792795 / 72057594037927936)"
proof -
  have a: "series_mean round64 [3602879701896397 / 36028797018963968, 3602879701896397 / 36028797018963968, (3602879701896397 / 36028797018963968 :: real)]
             = Some (round64 (pairwise_sum round64 [3602879701896397 / 36028797018963968, 3602879701896397 / 36028797018963968, (3602879701896397 / 36028797018963968 :: real)] / real (length [3602879701896397 / 36028797018963968, 3602879701896397 / 36028797018963968, (3602879701896397 / 36028797018963968 :: real)])))"
    by (rule series_mean_eval) simp
  have "pairwise_sum round64 [3602879701896397 / 36028797018963968, 3602879701896397 / 36028797018963968, (3602879701896397 / 36028797018963968 :: real)] = add_seq round64 0 [3602879701896397 / 36028797018963968, 3602879701896397 / 36028797018963968, (3602879701896397 / 36028797018963968 :: real)]"
    by (rule pairwise_sum_small) simp
  also have "\<dots> = 1351079888211149 / 4503599627370496"
    by (simp only: add_seq_Cons add_seq_Nil tenths_sum_1 tenths_sum_2 tenths_sum_3)
  finally have s: "pairwise_sum round64 [3602879701896397 / 36028797018963968, 3602879701896397 / 36028797018963968, (3602879701896397 / 36028797018963968 :: real)] = 1351079888211149 / 4503599627370496" .
  show ?thesis by (simp only: a s tenths_mean_r)
qed

lemma tenths_dev_1: "round64 ((7205759403792795 / 72057594037927936) - (3602879701896397 / 36028797018963968)) = 1 / 72057594037927936"
  by (rule round64I [where e = "- 56" and n = "4503599627370496"]) (simp_all add: pow2_def)

lemma tenths_sq_1: "round64 ((1 / 72057594037927936) * (1 / 72057594037927936)) = 1 / 5192296858534827628530496329220096"
  by (rule round64I [where e = "- 112" and n = "4503599627370496"]) (simp_all add: pow2_def)

lemma tenths_sqsum_1: "round64 (0 + (1 / 5192296858534827628530496329220096)) = 1 / 5192296858534827628530496329220096"
  by (rule round64I [where e = "- 112" and n = "4503599627370496"]) (simp_all add: pow2_def)

lemma tenths_sqsum_2: "round64 ((1 / 5192296858534827628530496329220096) + (1 / 5192296858534827628530496329220096)) = 1 / 2596148429267413814265248164610048"
  by (rule round64I [where e = "- 111" and n = "4503599627370496"]) (simp_all add: pow2_def)

lemma tenths_sqsum_3: "round64 ((1 / 2596148429267413814265248164610048) + (1 / 5192296858534827628530496329220096)) = 3 / 5192296858534827628530496329220096"
  by (rule round64I [where e = "- 111" and n = "6755399441055744"]) (simp_all add: pow2_def)

lemma tenths_var_r: "round64 ((3 / 5192296858534827628530496329220096) / real (length [3602879701896397 / 36028797018963968, 3602879701896397 / 36028797018963968, (3602879701896397 / 36028797018963968 :: real)])) = 1 / 5192296858534827628530496329220096"
  by (rule round64I [where e = "- 112" and n = "4503599627370496"]) (simp_all add: pow2_def)

lemma tenths_var: "series_var0 round64 [3602879701896397 / 36028797018963968, 3602879701896397 / 36028797018963968, (3602879701896397 / 36028797018963968 :: real)] = Some (1 / 5192296858534827628530496329220096)"
proof -
  have a: "series_var0 round64 [3602879701896397 / 36028797018963968, 3602879701896397 / 36028797018963968, (3602879701896397 / 36028797018963968 :: real)]
             = Some (round64 (pairwise_sum round64
                       (map (\<lambda>x. round64 (round64 ((7205759403792795 / 72057594037927936) - x) * round64 ((7205759403792795 / 72057594037927936) - x))) [3602879701896397 / 36028797018963968, 3602879701896397 / 36028797018963968, (3602879701896397 / 36028797018963968 :: real)])
                     / real (length [3602879701896397 / 36028797018963968, 3602879701896397 / 36028797018963968, (3602879701896397 / 36028797018963968 :: real)])))"
    by (rule series_var0_eval [OF tenths_mean])
  have m: "map (\<lambda>x. round64 (round64 ((7205759403792795 / 72057594037927936) - x) * round64 ((7205759403792795 / 72057594037927936) - x))) [3602879701896397 / 36028797018963968, 3602879701896397 / 36028797018963968, (3602879701896397 / 36028797018963968 :: real)]
             = [1 / 5192296858534827628530496329220096, 1 / 5192296858534827628530496329220096, (1 / 5192296858534827628530496329220096 :: real)]"
    by (simp only: list.map tenths_dev_1 tenths_sq_1)
  have "pairwise_sum round64 [1 / 5192296858534827628530496329220096, 1 / 5192296858534827628530496329220096, (1 / 5192296858534827628530496329220096 :: real)] = add_seq round64 0 [1 / 5192296858534827628530496329220096, 1 / 5192296858534827628530496329220096, (1 / 5192296858534827628530496329220096 :: real)]"
    by (rule pairwise_sum_small) simp
  also have "\<dots> = 3 / 5192296858534827628530496329220096"
    by (simp only: add_seq_Cons add_seq_Nil tenths_sqsum_1 tenths_sqsum_2 tenths_sqsum_3)
  finally have s: "pairwise_sum round64 [1 / 5192296858534827628530496329220096, 1 / 5192296858534827628530496329220096, (1 / 5192296858534827628530496329220096 :: real)] = 3 / 5192296858534827628530496329220096" .
  show ?thesis by (simp only: a m s tenths_var_r)
qed

lemma tenths_std_r: "round64 (sqrt (1 / 5192296858534827628530496329220096)) = 1 / 72057594037927936"
  by (rule round64_sqrtI [where e = "- 56" and n = "4503599627370496"]) (simp_all add: pow2_def power2_eq_square)

lemma tenths_std: "series_std0 round64 [3602879701896397 / 36028797018963968, 3602879701896397 / 36028797018963968, (3602879701896397 / 36028797018963968 :: real)] = Some (1 / 72057594037927936)"
proof -
  have a: "series_std0 round64 [3602879701896397 / 36028797018963968, 3602879701896397 / 36028797018963968, (3602879701896397 / 36028797018963968 :: real)] = Some (round64 (sqrt (1 / 5192296858534827628530496329220096)))"
    by (rule series_std0_eval [OF tenths_var]) simp
  show ?thesis by (simp only: a tenths_std_r)
qed

lemma tenths_dist_1: "round64 ((3602879701896397 / 36028797018963968) - (7205759403792795 / 72057594037927936)) = - (1 / 72057594037927936)"
  by (rule round64I [where e = "- 56" and n = "- 4503599627370496"]) (simp_all add: pow2_def)

lemma tenths_quot_1: "round64 ((- (1 / 72057594037927936)) / (1 / 72057594037927936)) = - 1"
  by (rule round64I [where e = "0" and n = "- 4503599627370496"]) (simp_all add: pow2_def)

lemma tenths_z: "z_scores round64 [3602879701896397 / 36028797018963968, 3602879701896397 / 36028797018963968, (3602879701896397 / 36028797018963968 :: real)] = [Some (- 1), Some (- 1), Some (- 1)]"
proof -
  have nz: "(1 / 72057594037927936 :: real) \<noteq> 0" by simp
  have a: "z_scores round64 [3602879701896397 / 36028797018963968, 3602879701896397 / 36028797018963968, (3602879701896397 / 36028797018963968 :: real)]
             = map (\<lambda>x. Some (round64 (round64 (x - (7205759403792795 / 72057594037927936)) / (1 / 72057594037927936)))) [3602879701896397 / 36028797018963968, 3602879701896397 / 36028797018963968, (3602879701896397 / 36028797018963968 :: real)]"
    by (rule z_scores_eval [OF tenths_mean tenths_std nz])
  show ?thesis by (simp only: a list.map tenths_dist_1 tenths_quot_1)
qed

lemma tenths_flags: "outlier_flags round64 [3602879701896397 / 36028797018963968, 3602879701896397 / 36028797018963968, (3602879701896397 / 36028797018963968 :: real)] = [False, False, False]"
  by (simp add: outlier_flags_def tenths_z z_ge_def)

lemma tenth_double: "round64 (1 / 10) = 3602879701896397 / 36028797018963968"
  by (rule round64I [where e = "- 4" and n = "7205759403792794"]) (simp_all add: pow2_def)


lemma threshold_exact_z: "population_z [17, 17, 17, 17, 170] 170 = 2"
proof -
  have m: "population_mean [17, 17, 17, 17, 170] = 238 / 5"
    by (simp add: population_mean_def)
  have "population_stddev [17, 17, 17, 17, 170] = sqrt (93636 / 25)"
    by (simp add: population_stddev_def m power2_eq_square)
  also have "\<dots> = 306 / 5"
    by (rule real_sqrt_unique) (simp_all add: power2_eq_square)
  finally have sd: "population_stddev [17, 17, 17, 17, 170] = 306 / 5" .
  show ?thesis by (simp add: population_z_def m sd)
qed


text \<open>
  At the threshold the rounding decides. The last point of 17, 17, 17, 17, 170 has the
  exact z-score 2, and exact arithmetic would flag it; in binary64 the standard deviation
  rounds up to 61.20000000000001, the quotient is 1.9999999999999998, and no point is
  flagged.
\<close>

lemma threshold_series_not_flagged:
  "outlier_flags round64 [17, 17, 17, 17, 170] = [False, False, False, False, False]
   \<and> outlier_flags (\<lambda>x. x) [17, 17, 17, 17, 170] ! 4"
proof -
  have "population_stddev [17, 17, 17, 17, 170] \<noteq> 0"
    using threshold_exact_z by (auto simp: population_z_def)
  then have "outlier_flags (\<lambda>x. x) [17, 17, 17, 17, 170] ! 4"
    using outlier_flags_exact [of "\<lambda>x. x" 4 "[17, 17, 17, 17, 170]"] threshold_exact_z
    by simp
  then show ?thesis using threshold_flags by simp
qed



subsection \<open>Degenerate series\<close>

text \<open>
  When the computed standard deviation is exactly 0 the divisor is \<^verbatim>\<open>NaN\<close>: no point
  has a z-score and none is flagged.
\<close>

lemma zero_std_no_outliers:
  assumes "series_std0 round64 (map snd daily) = Some 0"
  shows "z_scores round64 (map snd daily) = replicate (length daily) None \<and> outliers daily = []"
proof -
  have z: "z_scores round64 (map snd daily) = replicate (length daily) None"
    by (simp add: z_scores_degenerate [OF assms] map_replicate_const)
  have "snd (snd p) = None" if "p \<in> set (daily2 daily)" for p
    using that by (auto simp: daily2_def z dest!: set_zip_rightD)
  then have "outliers daily = []"
    by (auto simp: outliers_def z_ge_def filter_empty_conv)
  then show ?thesis using z by simp
qed

text \<open>
  Claim C4 breaks on the code. The series of three equal amounts 0.1 is constant, yet the
  mean of three times the \<^verbatim>\<open>float64\<close> nearest to 0.1 rounds to 0.10000000000000002, the
  computed standard deviation is 2 to the power -56 and not 0, the guard of line 218 is
  not taken, and every point gets the z-score -1. No point is flagged.
\<close>

theorem constant_series_z_defined:
  "round64 (1 / 10) = 3602879701896397 / 36028797018963968
   \<and> series_std0 round64
        [3602879701896397 / 36028797018963968, 3602879701896397 / 36028797018963968,
         3602879701896397 / 36028797018963968]
       = Some (1 / 72057594037927936)
   \<and> z_scores round64
        [3602879701896397 / 36028797018963968, 3602879701896397 / 36028797018963968,
         3602879701896397 / 36028797018963968]
       = [Some (- 1), Some (- 1), Some (- 1)]
   \<and> outlier_flags round64
        [3602879701896397 / 36028797018963968, 3602879701896397 / 36028797018963968,
         3602879701896397 / 36028797018963968]
       = [False, False, False]"
  using tenth_double tenths_std tenths_z tenths_flags by simp

section \<open>The rolling mean\<close>

text \<open>
  The running count and sum that \<open>roll_step\<close> maintains are, after index \<open>i\<close>, those of
  the window that ends at \<open>i\<close>.
\<close>


lemma fold_add_mean:
  "fold (\<lambda>j. add_mean (f j)) js st = (fst st + length js, snd st + sum_list (map f js))"
  by (induction js arbitrary: st) (simp_all add: add_mean_def)

lemma fold_remove_mean:
  "fold (\<lambda>j. remove_mean (f j)) js st = (fst st - length js, snd st - sum_list (map f js))"
  by (induction js arbitrary: st) (simp_all add: remove_mean_def)

lemma window_start_le: "0 < w \<Longrightarrow> window_start w i \<le> i"
  unfolding window_start_def by auto

lemma window_start_mono: "window_start w i \<le> window_start w (Suc i)"
  unfolding window_start_def by auto

lemma sum_list_upt_split:
  assumes "a \<le> b" and "b \<le> c"
  shows "sum_list (map f [a ..< c]) = sum_list (map f [a ..< b]) + sum_list (map f [b ..< c])"
proof -
  have "[a ..< c] = [a ..< b] @ [b ..< c]"
    using assms by (metis le_Suc_ex upt_add_eq_append)
  then show ?thesis by simp
qed

lemma roll_step_window:
  assumes "0 < w" and "0 < k \<longrightarrow> st = window_state w xs (k - 1)"
  shows "roll_step w minp xs k (st, out)
           = (window_state w xs k, out @ [calc_mean minp (window_state w xs k)])"
proof (cases "k = 0 \<or> k \<le> window_start w k")
  case True
  have le: "window_start w k \<le> k" by (rule window_start_le [OF assms(1)])
  have "fold (\<lambda>j. add_mean (xs ! j)) [window_start w k ..< k + 1] (0, 0) = window_state w xs k"
    using le by (simp add: fold_add_mean window_state_def del: upt_Suc)
  then show ?thesis using True by (simp add: roll_step_def Let_def del: upt_Suc)
next
  case False
  then obtain j where k: "k = Suc j" by (cases k) auto
  let ?a = "window_start w j" and ?b = "window_start w k"
  have st: "st = window_state w xs j" using assms(2) k by simp
  have ab: "?a \<le> ?b" unfolding k by (rule window_start_mono)
  have bk: "?b \<le> k" by (rule window_start_le [OF assms(1)])
  have aj: "?a \<le> j" by (rule window_start_le [OF assms(1)])
  have split: "sum_list (map ((!) xs) [?a ..< k])
                 = sum_list (map ((!) xs) [?a ..< ?b]) + sum_list (map ((!) xs) [?b ..< k])"
    by (rule sum_list_upt_split [OF ab bk])
  have last: "sum_list (map ((!) xs) [?b ..< k + 1]) = sum_list (map ((!) xs) [?b ..< k]) + xs ! k"
    using bk by simp
  have rem: "fold (\<lambda>j. remove_mean (xs ! j)) [?a ..< ?b] st
               = (k - ?a - (?b - ?a), sum_list (map ((!) xs) [?a ..< k]) - sum_list (map ((!) xs) [?a ..< ?b]))"
    using aj by (simp add: fold_remove_mean st window_state_def k del: upt_Suc)
  have cnt: "Suc (k - ?a - (?b - ?a)) = k + 1 - ?b"
    using ab bk by arith
  have "fold (\<lambda>j. add_mean (xs ! j)) [k ..< k + 1]
          (fold (\<lambda>j. remove_mean (xs ! j)) [?a ..< ?b] st)
          = (Suc (k - ?a - (?b - ?a)),
             sum_list (map ((!) xs) [?a ..< k]) - sum_list (map ((!) xs) [?a ..< ?b]) + xs ! k)"
    by (simp add: rem add_mean_def)
  also have "\<dots> = window_state w xs k"
    unfolding window_state_def cnt last split by simp
  finally have "fold (\<lambda>j. add_mean (xs ! j)) [k ..< k + 1]
          (fold (\<lambda>j. remove_mean (xs ! j)) [window_start w (k - 1) ..< ?b] st)
          = window_state w xs k"
    by (simp add: k del: upt_Suc)
  then show ?thesis using False by (simp add: roll_step_def Let_def del: upt_Suc)
qed

lemma roll_fold_window:
  assumes "0 < w"
  shows "fold (roll_step w minp xs) [0 ..< k] ((0, 0), [])
           = ((if k = 0 then (0, 0) else window_state w xs (k - 1)),
              map (\<lambda>i. calc_mean minp (window_state w xs i)) [0 ..< k])"
proof (induction k)
  case 0
  then show ?case by simp
next
  case (Suc k)
  have "fold (roll_step w minp xs) [0 ..< Suc k] ((0, 0), [])
          = roll_step w minp xs k (fold (roll_step w minp xs) [0 ..< k] ((0, 0), []))"
    by simp
  also have "\<dots> = roll_step w minp xs k
                      ((if k = 0 then (0, 0) else window_state w xs (k - 1)),
                       map (\<lambda>i. calc_mean minp (window_state w xs i)) [0 ..< k])"
    by (simp only: Suc.IH)
  also have "\<dots> = (window_state w xs k,
                    map (\<lambda>i. calc_mean minp (window_state w xs i)) [0 ..< k]
                      @ [calc_mean minp (window_state w xs k)])"
    by (rule roll_step_window [OF assms]) simp
  finally show ?case by simp
qed

lemma roll_mean_eq:
  assumes "0 < w"
  shows "roll_mean w minp xs = map (\<lambda>i. calc_mean minp (window_state w xs i)) [0 ..< length xs]"
  by (simp add: roll_mean_def roll_fold_window [OF assms])

lemma roll_mean_7_nth:
  assumes "i < length xs"
  shows "roll_mean 7 1 xs ! i
           = Some ((\<Sum>j = (if 6 \<le> i then i - 6 else 0) .. i. xs ! j)
                     / real (i + 1 - (if 6 \<le> i then i - 6 else 0)))"
proof -
  let ?lo = "if 6 \<le> i then i - 6 else 0"
  have ws: "window_start 7 i = ?lo" by (simp add: window_start_def)
  have "sum_list (map ((!) xs) [?lo ..< i + 1]) = (\<Sum>j = ?lo .. i. xs ! j)"
    by (simp add: interv_sum_list_conv_sum_set_nat atLeastLessThanSuc_atLeastAtMost del: upt_Suc)
  moreover have "0 < i + 1 - ?lo" by auto
  ultimately show ?thesis
    using assms by (simp add: roll_mean_eq calc_mean_def window_state_def ws del: upt_Suc)
qed

text \<open>
  Claim C5. For every daily series, short or long, the rolling mean at index \<open>i\<close> is the
  arithmetic mean of the amounts at the indices max(0, i - 6) to \<open>i\<close>: the sum of those
  amounts over their number. At index 0 it is the amount at index 0, and at an index below
  6 it is the mean of the amounts from index 0 on. The rolling mean has one value per
  entry of the series.
\<close>

theorem rolling_mean_trailing_window:
  assumes "i < length daily"
  shows "length (rolling_7d_avg daily) = length daily
         \<and> rolling_7d_avg daily ! i
             = Some ((\<Sum>j = (if 6 \<le> i then i - 6 else 0) .. i. snd (daily ! j))
                       / real (i + 1 - (if 6 \<le> i then i - 6 else 0)))
         \<and> rolling_7d_avg daily ! 0 = Some (snd (daily ! 0))
         \<and> (i < 6 \<longrightarrow> rolling_7d_avg daily ! i = Some ((\<Sum>j = 0 .. i. snd (daily ! j)) / real (i + 1)))"
proof -
  let ?xs = "map snd daily"
  have len: "length (rolling_7d_avg daily) = length daily"
    by (simp add: rolling_7d_avg_def roll_mean_eq)
  have nth: "(\<Sum>j = a .. k. ?xs ! j) = (\<Sum>j = a .. k. snd (daily ! j))" if "k < length daily" for a k
    using that by (intro sum.cong) auto
  have gen: "rolling_7d_avg daily ! k
             = Some ((\<Sum>j = (if 6 \<le> k then k - 6 else 0) .. k. snd (daily ! j))
                       / real (k + 1 - (if 6 \<le> k then k - 6 else 0)))" if "k < length daily" for k
    using roll_mean_7_nth [of k ?xs] that nth [OF that]
    by (simp add: rolling_7d_avg_def)
  have z: "0 < length daily" using assms by (cases daily) auto
  have first: "rolling_7d_avg daily ! 0 = Some (snd (daily ! 0))"
    using gen [OF z] by simp
  have early: "rolling_7d_avg daily ! i = Some ((\<Sum>j = 0 .. i. snd (daily ! j)) / real (i + 1))"
    if "i < 6"
    using gen [OF assms] that by simp
  show ?thesis using len gen [OF assms] first early by blast
qed




theorem rolling_mean_trailing_window_witness:
  "(7 :: nat) < length eight_days
   \<and> length (rolling_7d_avg eight_days) = length eight_days
   \<and> rolling_7d_avg eight_days ! 7 = Some ((\<Sum>j = 1 .. 7. snd (eight_days ! j)) / real 7)
   \<and> rolling_7d_avg eight_days ! 7 = Some 5
   \<and> rolling_7d_avg eight_days ! 0 = Some (snd (eight_days ! 0))
   \<and> (2 :: nat) < length eight_days \<and> (2 :: nat) < 6
   \<and> rolling_7d_avg eight_days ! 2 = Some ((\<Sum>j = 0 .. 2. snd (eight_days ! j)) / real 3)
   \<and> rolling_7d_avg eight_days ! 2 = Some 2"
proof -
  have h7: "(7 :: nat) < length eight_days" by (simp add: eight_days_def)
  have h2: "(2 :: nat) < length eight_days" by (simp add: eight_days_def)
  have v: "rolling_7d_avg eight_days ! 7 = Some 5" "rolling_7d_avg eight_days ! 2 = Some 2"
    by code_simp+
  show ?thesis
    using h7 h2 v rolling_mean_trailing_window [OF h7] rolling_mean_trailing_window [OF h2]
    by simp
qed

section \<open>The cross-tab\<close>

lemma distinct_singleton:
  assumes "distinct xs" and "set xs = {k}"
  shows "xs = [k]"
proof (cases xs)
  case Nil
  then show ?thesis using assms(2) by simp
next
  case (Cons a as)
  have "as = []"
  proof (rule ccontr)
    assume "as \<noteq> []"
    then obtain b bs where "as = b # bs" by (cases as) auto
    then show False using assms Cons by auto
  qed
  then show ?thesis using assms(2) Cons by auto
qed

lemma pivot_single_group:
  assumes "rs \<noteq> []" and "\<forall>r \<in> set rs. weekday r = Some w \<and> month r = Some m"
  shows "groupby_sum (map (\<lambda>r. (pair_key (weekday r) (month r), amount r)) rs)
           = [((w, m), sum_list (dropna (map amount rs)))]"
proof -
  let ?kvs = "map (\<lambda>r. (pair_key (weekday r) (month r), amount r)) rs"
  have key: "pair_key (weekday r) (month r) = Some (w, m)" if "r \<in> set rs" for r
    using assms(2) that by (simp add: pair_key_def)
  obtain r0 where r0: "r0 \<in> set rs" using assms(1) by (cases rs) auto
  have "set (group_keys (map fst ?kvs)) = {(w, m)}"
    using key r0 by (auto simp: set_group_keys image_iff) 
  then have keys: "group_keys (map fst ?kvs) = [(w, m)]"
    by (rule distinct_singleton [OF distinct_group_keys])
  have "filter (\<lambda>kv. fst kv = Some (w, m)) ?kvs = ?kvs"
    using key by (simp add: filter_id_conv)
  then have "group_total (w, m) ?kvs = sum_list (dropna (map amount rs))"
    by (simp add: group_total_def comp_def)
  then show ?thesis unfolding groupby_sum_eq keys by simp
qed

lemma heatmap_no_keys:
  assumes "\<forall>r \<in> set rs. weekday r = None \<or> month r = None"
  shows "heatmap rs = \<lparr>ct_index = weekday_order, ct_columns = [],
                        ct_cells = map (\<lambda>d. []) weekday_order\<rparr>"
proof -
  let ?kvs = "map (\<lambda>r. (pair_key (weekday r) (month r), amount r)) rs"
  have "pair_key (weekday r) (month r) = None" if "r \<in> set rs" for r
    using assms that by (auto simp: pair_key_def split: option.splits)
  then have "set (group_keys (map fst ?kvs)) = {}"
    by (auto simp: set_group_keys)
  then have "group_keys (map fst ?kvs) = []"
    by simp
  then have "groupby_sum ?kvs = []"
    unfolding groupby_sum_eq by simp
  then have "pivot_table rs = \<lparr>ct_index = [], ct_columns = [], ct_cells = []\<rparr>"
    by (simp add: pivot_table_def)
  then show ?thesis
    by (simp add: heatmap_def reindex_def)
qed

lemma weekday_order_count:
  assumes "w \<in> set weekday_order"
  shows "length (filter (\<lambda>d. d = w) weekday_order) = 1"
    and "length (filter (\<lambda>d. d \<noteq> w) weekday_order) = 6"
  using assms by (auto simp: weekday_order_def)

text \<open>
  Claim C7. When the rows are not empty and all fall on one weekday \<open>w\<close> and in one month
  \<open>m\<close>, the cross-tab has the seven weekdays in the order Monday to Sunday as rows and
  the single column \<open>m\<close>; its one present cell, in row \<open>w\<close>, is the sum of the amounts,
  and the six other rows are absent, shown as zero only in the filled matrix that is
  drawn. For any rows, the empty-heatmap notice is given exactly when every cell is absent,
  as it is when no row has both a weekday and a month.
\<close>

theorem crosstab_single_cell:
  assumes "rs \<noteq> []" and "\<forall>r \<in> set rs. weekday r = Some w \<and> month r = Some m"
    and "w \<in> set weekday_order"
  shows "heatmap rs =
           \<lparr>ct_index = weekday_order,
            ct_columns = [m],
            ct_cells = map (\<lambda>d. [if d = w then Some (sum_list (dropna (map amount rs))) else None])
                         weekday_order\<rparr>
         \<and> length (filter (\<lambda>c. c \<noteq> None) (concat (ct_cells (heatmap rs)))) = 1
         \<and> length (filter (list_all (\<lambda>c. c = None)) (ct_cells (heatmap rs))) = 6
         \<and> heatmap_view rs =
             Inr (map (\<lambda>d. [if d = w then sum_list (dropna (map amount rs)) else 0]) weekday_order)
         \<and> (all_null (heatmap rs') \<longleftrightarrow> heatmap_view rs' = Inl NoHeatmapData)
         \<and> ((\<forall>r \<in> set rs'. weekday r = None \<or> month r = None)
              \<longrightarrow> heatmap_view rs' = Inl NoHeatmapData)"
proof -
  let ?t = "sum_list (dropna (map amount rs))"
  let ?cells = "map (\<lambda>d. [if d = w then Some ?t else None]) weekday_order"
  have p: "pivot_table rs = \<lparr>ct_index = [w], ct_columns = [m], ct_cells = [[Some ?t]]\<rparr>"
    by (simp add: pivot_table_def pivot_single_group [OF assms(1,2)])
  have h: "heatmap rs = \<lparr>ct_index = weekday_order, ct_columns = [m], ct_cells = ?cells\<rparr>"
    by (simp add: heatmap_def reindex_def p)
  have "concat ?cells = map (\<lambda>d. if d = w then Some ?t else None) weekday_order"
    by (simp add: concat_map_singleton)
  then have "filter (\<lambda>c. c \<noteq> None) (concat ?cells)
               = map (\<lambda>d. if d = w then Some ?t else None) (filter (\<lambda>d. d = w) weekday_order)"
    by (simp add: filter_map comp_def)
  then have one: "length (filter (\<lambda>c. c \<noteq> None) (concat ?cells)) = 1"
    by (simp add: weekday_order_count(1) [OF assms(3)])
  have "filter (list_all (\<lambda>c. c = None)) ?cells
          = map (\<lambda>d. [if d = w then Some ?t else None]) (filter (\<lambda>d. d \<noteq> w) weekday_order)"
    by (simp add: filter_map comp_def)
  then have six: "length (filter (list_all (\<lambda>c. c = None)) ?cells) = 6"
    by (simp add: weekday_order_count(2) [OF assms(3)])
  have nn: "\<not> all_null (heatmap rs)"
    using assms(3) by (auto simp: h all_null_def list_all_iff)
  have v: "heatmap_view rs = Inr (map (\<lambda>d. [if d = w then ?t else 0]) weekday_order)"
    using nn by (simp add: heatmap_view_def fillna0_def h)
  have e: "all_null (heatmap rs') \<longleftrightarrow> heatmap_view rs' = Inl NoHeatmapData"
    by (simp add: heatmap_view_def)
  have a: "heatmap_view rs' = Inl NoHeatmapData"
    if "\<forall>r \<in> set rs'. weekday r = None \<or> month r = None"
    by (simp add: heatmap_view_def heatmap_no_keys [OF that] all_null_def list_all_iff)
  show ?thesis
    using one six v e a unfolding h by simp
qed

theorem crosstab_single_cell_witness:
  "take 2 (rows example_df) \<noteq> []
   \<and> weekday (rows example_df ! 0) = Some ''Monday'' \<and> month (rows example_df ! 0) = Some ''January''
   \<and> weekday (rows example_df ! 1) = Some ''Monday'' \<and> month (rows example_df ! 1) = Some ''January''
   \<and> ''Monday'' \<in> set weekday_order
   \<and> heatmap (take 2 (rows example_df)) =
         \<lparr>ct_index = weekday_order,
          ct_columns = [''January''],
          ct_cells = [[Some 150], [None], [None], [None], [None], [None], [None]]\<rparr>
   \<and> length (filter (\<lambda>c. c \<noteq> None) (concat (ct_cells (heatmap (take 2 (rows example_df)))))) = 1
   \<and> length (filter (list_all (\<lambda>c. c = None)) (ct_cells (heatmap (take 2 (rows example_df))))) = 6
   \<and> heatmap_view (take 2 (rows example_df)) = Inr [[150], [0], [0], [0], [0], [0], [0]]
   \<and> weekday (rows unparsed_df ! 1) = None
   \<and> all_null (heatmap [rows unparsed_df ! 1])
   \<and> heatmap_view [rows unparsed_df ! 1] = Inl NoHeatmapData"
proof -
  let ?rs = "take 2 (rows example_df)"
  have n: "?rs \<noteq> []" by (simp add: example_df_def)
  have k: "\<forall>r \<in> set ?rs. weekday r = Some ''Monday'' \<and> month r = Some ''January''"
    by (simp add: example_df_def numeral_2_eq_2)
  have w: "''Monday'' \<in> set weekday_order" by (simp add: weekday_order_def)
  have u: "\<forall>r \<in> set [rows unparsed_df ! 1]. weekday r = None \<or> month r = None"
    by (simp add: unparsed_df_def)
  have t: "sum_list (dropna (map amount ?rs)) = 150"
    by (simp add: example_df_def numeral_2_eq_2)
  have c: "map (\<lambda>d. [if d = ''Monday'' then Some (150 :: real) else None]) weekday_order
             = [[Some 150], [None], [None], [None], [None], [None], [None]]"
    by (simp add: weekday_order_def)
  have z: "map (\<lambda>d. [if d = ''Monday'' then (150 :: real) else 0]) weekday_order
             = [[150], [0], [0], [0], [0], [0], [0]]"
    by (simp add: weekday_order_def)
  have r0: "weekday (rows example_df ! 0) = Some ''Monday'' \<and> month (rows example_df ! 0) = Some ''January''
    \<and> weekday (rows example_df ! 1) = Some ''Monday'' \<and> month (rows example_df ! 1) = Some ''January''
    \<and> weekday (rows unparsed_df ! 1) = None"
    by (simp add: example_df_def unparsed_df_def)
  show ?thesis
    using n w r0 crosstab_single_cell [OF n k w, of "[rows unparsed_df ! 1]"] u
    unfolding t c z by simp
qed


end
